theory Spec2Isabelle
  imports Main "HOL-Library.Word" "HOL-Library.Multiset"
begin

unbundle bit_operations_syntax

section \<open>Common types\<close>

text \<open>
  Go's \<^verbatim>\<open>byte\<close> and \<^verbatim>\<open>uint32\<close> are words of 8 and 32 bits: \<open>+\<close> and \<open>-\<close> wrap
  around as they do in Go. A Go \<^verbatim>\<open>string\<close> is a sequence of bytes and is modelled by
  \<open>string\<close>, whose characters are bytes; \<^verbatim>\<open>len\<close> is \<open>length\<close>.
\<close>

type_synonym byte = "8 word"
type_synonym uint32 = "32 word"

section \<open>HPACK dynamic table (package hpack, DynamicTable)\<close>

record HeaderField =
  Name :: string
  Value :: string

text \<open>\<^verbatim>\<open>uint32(len(h.Name) + len(h.Value) + 32)\<close>: the sum is an \<^verbatim>\<open>int\<close>, the
  conversion keeps its low 32 bits.\<close>

definition HeaderField_Size :: "HeaderField \<Rightarrow> uint32" where
  "HeaderField_Size h = of_nat (length (Name h) + length (Value h) + 32)"

record DynamicTable =
  entries :: "HeaderField list"
  size_dt :: uint32
  maxSize :: uint32

definition NewDynamicTable :: "uint32 \<Rightarrow> DynamicTable" where
  "NewDynamicTable m = \<lparr>entries = [], size_dt = 0, maxSize = m\<rparr>"

definition evictOldest :: "DynamicTable \<Rightarrow> DynamicTable" where
  "evictOldest dt =
     (if entries dt = [] then dt
      else dt\<lparr>entries := butlast (entries dt),
              size_dt := size_dt dt - HeaderField_Size (last (entries dt))\<rparr>)"

definition evictAll :: "DynamicTable \<Rightarrow> DynamicTable" where
  "evictAll dt = dt\<lparr>entries := [], size_dt := 0\<rparr>"

text \<open>The eviction loop of \<^verbatim>\<open>Add\<close>:
  \<^verbatim>\<open>for dt.size+fieldSize > dt.maxSize && len(dt.entries) > 0 { dt.evictOldest() }\<close>.\<close>

function Add_evict :: "uint32 \<Rightarrow> DynamicTable \<Rightarrow> DynamicTable" where
  "Add_evict fieldSize dt =
     (if size_dt dt + fieldSize > maxSize dt \<and> entries dt \<noteq> []
      then Add_evict fieldSize (evictOldest dt) else dt)"
  by pat_completeness auto
termination
  by (relation "measure (\<lambda>(fieldSize, dt). length (entries dt))")
     (auto simp: evictOldest_def)

declare Add_evict.simps [simp del]

definition Add :: "DynamicTable \<Rightarrow> string \<Rightarrow> string \<Rightarrow> DynamicTable" where
  "Add dt name value =
     (let field = \<lparr>Name = name, Value = value\<rparr>;
          fieldSize = HeaderField_Size field
      in if fieldSize > maxSize dt then evictAll dt
         else let dt' = Add_evict fieldSize dt
              in dt'\<lparr>entries := field # entries dt',
                      size_dt := size_dt dt' + fieldSize\<rparr>)"

text \<open>The errors the modelled functions return, one constructor for each
  \<^verbatim>\<open>errors.New\<close> or \<^verbatim>\<open>fmt.Errorf\<close> of the source (a wrapped error is
  represented by its cause); \<open>EOF\<close> is \<^verbatim>\<open>io.EOF\<close> of the byte reader, and
  \<open>ConnError n\<close> stands for the errors a connection's \<^verbatim>\<open>Write\<close> can return.\<close>

datatype error =
    IndexOutOfRange
  | InvalidIndexZero
  | InvalidPrefixBits
  | EOF
  | IntegerOverflow
  | StringLengthExceedsBuffer
  | ShortRead
  | HuffmanEncodingNotImplemented
  | HuffmanDecodingNotImplemented
  | HeadersNil
  | HeaderTooShort
  | HeaderLengthMismatch
  | PayloadTooShort
  | PayloadDataMissing
  | WriterClosed
  | WriteCancelled
  | WriteQueueFullTimeout
  | ControlQueueFullTimeout
  | ConnError nat

definition Get :: "DynamicTable \<Rightarrow> uint32 \<Rightarrow> error + (string \<times> string)" where
  "Get dt index =
     (if index \<ge> of_nat (length (entries dt)) then Inl IndexOutOfRange
      else let field = entries dt ! unat index in Inr (Name field, Value field))"

text \<open>\<^verbatim>\<open>for i, field := range dt.entries\<close>, returning \<^verbatim>\<open>uint32(i)\<close> at the first
  match; \<open>i\<close> is the position reached so far.\<close>

fun FindExact_from :: "nat \<Rightarrow> HeaderField list \<Rightarrow> string \<Rightarrow> string \<Rightarrow> uint32 \<times> bool" where
  "FindExact_from i [] name value = (0, False)"
| "FindExact_from i (field # fs) name value =
     (if Name field = name \<and> Value field = value then (of_nat i, True)
      else FindExact_from (Suc i) fs name value)"

definition FindExact :: "DynamicTable \<Rightarrow> string \<Rightarrow> string \<Rightarrow> uint32 \<times> bool" where
  "FindExact dt name value = FindExact_from 0 (entries dt) name value"

fun FindName_from :: "nat \<Rightarrow> HeaderField list \<Rightarrow> string \<Rightarrow> uint32 \<times> bool" where
  "FindName_from i [] name = (0, False)"
| "FindName_from i (field # fs) name =
     (if Name field = name then (of_nat i, True)
      else FindName_from (Suc i) fs name)"

definition FindName :: "DynamicTable \<Rightarrow> string \<Rightarrow> uint32 \<times> bool" where
  "FindName dt name = FindName_from 0 (entries dt) name"

text \<open>The eviction loop of \<^verbatim>\<open>SetMaxSize\<close>:
  \<^verbatim>\<open>for dt.size > dt.maxSize && len(dt.entries) > 0 { dt.evictOldest() }\<close>.\<close>

function SetMaxSize_evict :: "DynamicTable \<Rightarrow> DynamicTable" where
  "SetMaxSize_evict dt =
     (if size_dt dt > maxSize dt \<and> entries dt \<noteq> []
      then SetMaxSize_evict (evictOldest dt) else dt)"
  by pat_completeness auto
termination
  by (relation "measure (\<lambda>dt. length (entries dt))")
     (auto simp: evictOldest_def)

declare SetMaxSize_evict.simps [simp del]

definition SetMaxSize :: "DynamicTable \<Rightarrow> uint32 \<Rightarrow> DynamicTable" where
  "SetMaxSize dt m = SetMaxSize_evict (dt\<lparr>maxSize := m\<rparr>)"

definition CurrentSize :: "DynamicTable \<Rightarrow> uint32" where
  "CurrentSize dt = size_dt dt"

section \<open>HPACK static table\<close>

record StaticTable =
  entries_st :: "HeaderField list"
  nameMap :: "string \<rightharpoonup> uint32 list"

definition static_entries :: "HeaderField list" where
  "static_entries =
    [\<lparr>Name = '':authority'', Value = ''''\<rparr>,
     \<lparr>Name = '':method'', Value = ''GET''\<rparr>,
     \<lparr>Name = '':method'', Value = ''POST''\<rparr>,
     \<lparr>Name = '':path'', Value = ''/''\<rparr>,
     \<lparr>Name = '':path'', Value = ''/index.html''\<rparr>,
     \<lparr>Name = '':scheme'', Value = ''http''\<rparr>,
     \<lparr>Name = '':scheme'', Value = ''https''\<rparr>,
     \<lparr>Name = '':status'', Value = ''200''\<rparr>,
     \<lparr>Name = '':status'', Value = ''204''\<rparr>,
     \<lparr>Name = '':status'', Value = ''206''\<rparr>,
     \<lparr>Name = '':status'', Value = ''304''\<rparr>,
     \<lparr>Name = '':status'', Value = ''400''\<rparr>,
     \<lparr>Name = '':status'', Value = ''404''\<rparr>,
     \<lparr>Name = '':status'', Value = ''500''\<rparr>,
     \<lparr>Name = ''accept-charset'', Value = ''''\<rparr>,
     \<lparr>Name = ''accept-encoding'', Value = ''gzip, deflate''\<rparr>,
     \<lparr>Name = ''accept-language'', Value = ''''\<rparr>,
     \<lparr>Name = ''accept-ranges'', Value = ''''\<rparr>,
     \<lparr>Name = ''accept'', Value = ''''\<rparr>,
     \<lparr>Name = ''access-control-allow-origin'', Value = ''''\<rparr>,
     \<lparr>Name = ''age'', Value = ''''\<rparr>,
     \<lparr>Name = ''allow'', Value = ''''\<rparr>,
     \<lparr>Name = ''authorization'', Value = ''''\<rparr>,
     \<lparr>Name = ''cache-control'', Value = ''''\<rparr>,
     \<lparr>Name = ''content-disposition'', Value = ''''\<rparr>,
     \<lparr>Name = ''content-encoding'', Value = ''''\<rparr>,
     \<lparr>Name = ''content-language'', Value = ''''\<rparr>,
     \<lparr>Name = ''content-length'', Value = ''''\<rparr>,
     \<lparr>Name = ''content-location'', Value = ''''\<rparr>,
     \<lparr>Name = ''content-range'', Value = ''''\<rparr>,
     \<lparr>Name = ''content-type'', Value = ''''\<rparr>,
     \<lparr>Name = ''cookie'', Value = ''''\<rparr>,
     \<lparr>Name = ''date'', Value = ''''\<rparr>,
     \<lparr>Name = ''etag'', Value = ''''\<rparr>,
     \<lparr>Name = ''expect'', Value = ''''\<rparr>,
     \<lparr>Name = ''expires'', Value = ''''\<rparr>,
     \<lparr>Name = ''from'', Value = ''''\<rparr>,
     \<lparr>Name = ''host'', Value = ''''\<rparr>,
     \<lparr>Name = ''if-match'', Value = ''''\<rparr>,
     \<lparr>Name = ''if-modified-since'', Value = ''''\<rparr>,
     \<lparr>Name = ''if-none-match'', Value = ''''\<rparr>,
     \<lparr>Name = ''if-range'', Value = ''''\<rparr>,
     \<lparr>Name = ''if-unmodified-since'', Value = ''''\<rparr>,
     \<lparr>Name = ''last-modified'', Value = ''''\<rparr>,
     \<lparr>Name = ''link'', Value = ''''\<rparr>,
     \<lparr>Name = ''location'', Value = ''''\<rparr>,
     \<lparr>Name = ''max-forwards'', Value = ''''\<rparr>,
     \<lparr>Name = ''proxy-authenticate'', Value = ''''\<rparr>,
     \<lparr>Name = ''proxy-authorization'', Value = ''''\<rparr>,
     \<lparr>Name = ''range'', Value = ''''\<rparr>,
     \<lparr>Name = ''referer'', Value = ''''\<rparr>,
     \<lparr>Name = ''refresh'', Value = ''''\<rparr>,
     \<lparr>Name = ''retry-after'', Value = ''''\<rparr>,
     \<lparr>Name = ''server'', Value = ''''\<rparr>,
     \<lparr>Name = ''set-cookie'', Value = ''''\<rparr>,
     \<lparr>Name = ''strict-transport-security'', Value = ''''\<rparr>,
     \<lparr>Name = ''transfer-encoding'', Value = ''''\<rparr>,
     \<lparr>Name = ''user-agent'', Value = ''''\<rparr>,
     \<lparr>Name = ''vary'', Value = ''''\<rparr>,
     \<lparr>Name = ''via'', Value = ''''\<rparr>,
     \<lparr>Name = ''www-authenticate'', Value = ''''\<rparr>]"

text \<open>\<^verbatim>\<open>for i, entry := range entries { nameMap[entry.Name] = append(nameMap[entry.Name], uint32(i)) }\<close>\<close>

fun build_nameMap :: "nat \<Rightarrow> HeaderField list \<Rightarrow> (string \<rightharpoonup> uint32 list) \<Rightarrow> (string \<rightharpoonup> uint32 list)" where
  "build_nameMap i [] m = m"
| "build_nameMap i (entry # es) m =
     build_nameMap (Suc i) es
       (m(Name entry \<mapsto> (case m (Name entry) of None \<Rightarrow> [] | Some l \<Rightarrow> l) @ [of_nat i]))"

definition newStaticTable :: StaticTable where
  "newStaticTable =
     \<lparr>entries_st = static_entries, nameMap = build_nameMap 0 static_entries Map.empty\<rparr>"

text \<open>The singleton: every encoder and decoder holds this one table in its
  \<^verbatim>\<open>staticTable\<close> field.\<close>

definition GetStaticTable :: StaticTable where
  "GetStaticTable = newStaticTable"

definition StaticTable_Get :: "StaticTable \<Rightarrow> uint32 \<Rightarrow> error + (string \<times> string)" where
  "StaticTable_Get st index =
     (if index \<ge> of_nat (length (entries_st st)) then Inl IndexOutOfRange
      else let field = entries_st st ! unat index in Inr (Name field, Value field))"

fun StaticTable_FindExact_loop :: "StaticTable \<Rightarrow> uint32 list \<Rightarrow> string \<Rightarrow> uint32 \<times> bool" where
  "StaticTable_FindExact_loop st [] value = (0, False)"
| "StaticTable_FindExact_loop st (index # indices) value =
     (if Value (entries_st st ! unat index) = value then (index, True)
      else StaticTable_FindExact_loop st indices value)"

definition StaticTable_FindExact :: "StaticTable \<Rightarrow> string \<Rightarrow> string \<Rightarrow> uint32 \<times> bool" where
  "StaticTable_FindExact st name value =
     (case nameMap st name of
        None \<Rightarrow> (0, False)
      | Some indices \<Rightarrow> StaticTable_FindExact_loop st indices value)"

definition StaticTable_FindName :: "StaticTable \<Rightarrow> string \<Rightarrow> uint32 \<times> bool" where
  "StaticTable_FindName st name =
     (case nameMap st name of
        None \<Rightarrow> (0, False)
      | Some indices \<Rightarrow> (case indices of [] \<Rightarrow> (0, False) | i # _ \<Rightarrow> (i, True)))"

definition StaticTable_Size :: "StaticTable \<Rightarrow> nat" where
  "StaticTable_Size st = length (entries_st st)"

section \<open>HPACK encoder (package hpack, Encoder)\<close>

definition DefaultDynamicTableSize :: uint32 where
  "DefaultDynamicTableSize = 4096"

definition indexedHeaderField :: byte where
  "indexedHeaderField = 0x80"

definition literalHeaderFieldWithIndexing :: byte where
  "literalHeaderFieldWithIndexing = 0x40"

text \<open>Bytes of a string (\<^verbatim>\<open>buf.WriteString(str)\<close>) and the string of a byte slice
  (\<^verbatim>\<open>string(data)\<close>).\<close>

definition str_bytes :: "string \<Rightarrow> byte list" where
  "str_bytes s = map (\<lambda>c. of_nat (of_char c)) s"

definition bytes_str :: "byte list \<Rightarrow> string" where
  "bytes_str bs = map (\<lambda>b. char_of (unat b)) bs"

text \<open>\<^verbatim>\<open>strings.ToLower\<close> of the Go library, on ASCII text: the letters \<open>A\<close> to \<open>Z\<close>
  become \<open>a\<close> to \<open>z\<close>, every other byte stays.\<close>

definition lower_char :: "char \<Rightarrow> char" where
  "lower_char c =
     (let n = (of_char c :: nat) in if 65 \<le> n \<and> n \<le> 90 then char_of (n + 32) else c)"

definition ToLower :: "string \<Rightarrow> string" where
  "ToLower s = map lower_char s"

text \<open>The encoder's state is its dynamic table and \<^verbatim>\<open>maxTableSize\<close>; the output buffer
  \<^verbatim>\<open>buf\<close> is the list of bytes written so far, each write appending to it.\<close>

record Encoder =
  dynamicTable_e :: DynamicTable
  maxTableSize_e :: uint32

definition NewEncoder :: "uint32 \<Rightarrow> Encoder" where
  "NewEncoder maxTableSize =
     (let m = (if maxTableSize = 0 then DefaultDynamicTableSize else maxTableSize)
      in \<lparr>dynamicTable_e = NewDynamicTable m, maxTableSize_e = m\<rparr>)"

text \<open>The loop of \<^verbatim>\<open>writeInteger\<close>:
  \<^verbatim>\<open>for value >= 128 { buf.WriteByte(byte(value%128) | 0x80); value /= 128 }; buf.WriteByte(byte(value))\<close>.\<close>

function writeInteger_loop :: "byte list \<Rightarrow> uint32 \<Rightarrow> byte list" where
  "writeInteger_loop buf v =
     (if v \<ge> 128 then writeInteger_loop (buf @ [ucast (v mod 128) OR 0x80]) (v div 128)
      else buf @ [ucast v])"
  by pat_completeness auto
termination
proof (relation "measure (\<lambda>(buf, v). unat v)")
  show "wf (measure (\<lambda>(buf, v). unat v))" by simp
next
  fix buf :: "byte list" and v :: uint32
  assume "128 \<le> v"
  then have "128 \<le> unat v" by (simp add: word_le_nat_alt)
  then have "unat v div 128 < unat v" by simp
  then show "((buf @ [ucast (v mod 128) OR 0x80], v div 128), (buf, v)) \<in> measure (\<lambda>(buf, v). unat v)"
    by (simp add: unat_div)
qed

declare writeInteger_loop.simps [simp del]

definition writeInteger :: "byte list \<Rightarrow> uint32 \<Rightarrow> int \<Rightarrow> byte \<Rightarrow> error + byte list" where
  "writeInteger buf v prefixBits prefix =
     (if prefixBits < 1 \<or> prefixBits > 8 then Inl InvalidPrefixBits
      else let maxPrefix = (push_bit (nat prefixBits) 1 - 1 :: uint32)
           in if v < maxPrefix then Inr (buf @ [prefix OR ucast v])
              else Inr (writeInteger_loop (buf @ [prefix OR ucast maxPrefix]) (v - maxPrefix)))"

definition writeString :: "byte list \<Rightarrow> string \<Rightarrow> bool \<Rightarrow> error + byte list" where
  "writeString buf str huffmanEncode =
     (let len = (of_nat (length str) :: uint32)
      in if huffmanEncode then Inl HuffmanEncodingNotImplemented
         else case writeInteger buf len 7 0x00 of
                Inl e \<Rightarrow> Inl e
              | Inr buf' \<Rightarrow> Inr (buf' @ str_bytes str))"

definition writeIndexedHeader :: "byte list \<Rightarrow> uint32 \<Rightarrow> error + byte list" where
  "writeIndexedHeader buf index = writeInteger buf index 7 indexedHeaderField"

definition writeLiteralWithIndexing :: "byte list \<Rightarrow> uint32 \<Rightarrow> string \<Rightarrow> bool \<Rightarrow> error + byte list" where
  "writeLiteralWithIndexing buf nameIndex value hasIndex =
     (if hasIndex then
        (case writeInteger buf nameIndex 6 literalHeaderFieldWithIndexing of
           Inl e \<Rightarrow> Inl e
         | Inr buf' \<Rightarrow> writeString buf' value False)
      else writeString (buf @ [literalHeaderFieldWithIndexing]) value False)"

text \<open>\<^verbatim>\<open>encodeHeaderField\<close> returns the encoder as the call leaves it, and either the error
  or the buffer. Only the last branch changes the encoder: it is the one place where the
  encoder calls \<^verbatim>\<open>e.dynamicTable.Add\<close>.\<close>

definition encodeHeaderField :: "Encoder \<Rightarrow> byte list \<Rightarrow> string \<Rightarrow> string \<Rightarrow> Encoder \<times> (error + byte list)" where
  "encodeHeaderField e buf name value =
     (let nameLower = ToLower name;
          st = GetStaticTable
      in case StaticTable_FindExact st nameLower value of
           (index, True) \<Rightarrow> (e, writeIndexedHeader buf (index + 1))
         | (_, False) \<Rightarrow>
        (case StaticTable_FindName st nameLower of
           (index, True) \<Rightarrow> (e, writeLiteralWithIndexing buf (index + 1) value True)
         | (_, False) \<Rightarrow>
        (case FindExact (dynamicTable_e e) nameLower value of
           (index, True) \<Rightarrow>
             (e, writeIndexedHeader buf (of_nat (StaticTable_Size st) + index + 1))
         | (_, False) \<Rightarrow>
        (case FindName (dynamicTable_e e) nameLower of
           (index, True) \<Rightarrow>
             (e, writeLiteralWithIndexing buf (of_nat (StaticTable_Size st) + index + 1) value True)
         | (_, False) \<Rightarrow>
        (case writeString (buf @ [literalHeaderFieldWithIndexing]) nameLower False of
           Inl err \<Rightarrow> (e, Inl err)
         | Inr buf1 \<Rightarrow>
        (case writeString buf1 value False of
           Inl err \<Rightarrow> (e, Inl err)
         | Inr buf2 \<Rightarrow>
             (e\<lparr>dynamicTable_e := Add (dynamicTable_e e) nameLower value\<rparr>, Inr buf2)))))))"

text \<open>A header set (\<^verbatim>\<open>http.Header\<close>, a map from a name to its values) is the list of its
  entries in the order in which \<^verbatim>\<open>range headers\<close> visits them; \<open>None\<close> is the \<^verbatim>\<open>nil\<close>
  map.\<close>

type_synonym Header = "(string \<times> string list) list"

fun encode_values :: "Encoder \<Rightarrow> byte list \<Rightarrow> string \<Rightarrow> string list \<Rightarrow> Encoder \<times> (error + byte list)" where
  "encode_values e buf name [] = (e, Inr buf)"
| "encode_values e buf name (value # values) =
     (case encodeHeaderField e buf name value of
        (e', Inl err) \<Rightarrow> (e', Inl err)
      | (e', Inr buf') \<Rightarrow> encode_values e' buf' name values)"

fun encode_headers :: "Encoder \<Rightarrow> byte list \<Rightarrow> Header \<Rightarrow> Encoder \<times> (error + byte list)" where
  "encode_headers e buf [] = (e, Inr buf)"
| "encode_headers e buf ((name, values) # hs) =
     (case encode_values e buf name values of
        (e', Inl err) \<Rightarrow> (e', Inl err)
      | (e', Inr buf') \<Rightarrow> encode_headers e' buf' hs)"

definition Encode :: "Encoder \<Rightarrow> Header option \<Rightarrow> Encoder \<times> (error + byte list)" where
  "Encode e headers =
     (case headers of
        None \<Rightarrow> (e, Inl HeadersNil)
      | Some hs \<Rightarrow> encode_headers e [] hs)"

section \<open>HPACK decoder (package hpack, Decoder)\<close>

text \<open>The decoder reads from a \<^verbatim>\<open>bytes.Reader\<close>: the model passes the bytes not yet read,
  and a successful read returns what is left. \<^verbatim>\<open>ReadByte\<close> on an empty reader is
  \<open>EOF\<close>.\<close>

record Decoder =
  dynamicTable_d :: DynamicTable
  maxTableSize_d :: uint32

definition NewDecoder :: "uint32 \<Rightarrow> Decoder" where
  "NewDecoder maxTableSize =
     (let m = (if maxTableSize = 0 then DefaultDynamicTableSize else maxTableSize)
      in \<lparr>dynamicTable_d = NewDynamicTable m, maxTableSize_d = m\<rparr>)"

text \<open>The loop of \<^verbatim>\<open>readInteger\<close>, with the loop variables \<^verbatim>\<open>value\<close> and \<^verbatim>\<open>m\<close>:
  \<^verbatim>\<open>value += uint32(b&0x7f) << m; m += 7; if b&0x80 == 0 { break }; if m > 28 { return 0, overflow }\<close>.
  A Go shift by 32 or more gives 0, as \<open>push_bit\<close> on a word does.\<close>

fun readInteger_loop :: "byte list \<Rightarrow> uint32 \<Rightarrow> uint32 \<Rightarrow> error + (uint32 \<times> byte list)" where
  "readInteger_loop [] v m = Inl EOF"
| "readInteger_loop (b # buf) v m =
     (let v' = v + push_bit (unat m) (ucast (b AND 0x7f));
          m' = m + 7
      in if b AND 0x80 = 0 then Inr (v', buf)
         else if m' > 28 then Inl IntegerOverflow
         else readInteger_loop buf v' m')"

definition readInteger :: "byte list \<Rightarrow> int \<Rightarrow> error + (uint32 \<times> byte list)" where
  "readInteger buf prefixBits =
     (if prefixBits < 1 \<or> prefixBits > 8 then Inl InvalidPrefixBits
      else case buf of
             [] \<Rightarrow> Inl EOF
           | b # rest \<Rightarrow>
               let maxPrefix = (push_bit (nat prefixBits) 1 - 1 :: uint32);
                   mask = (ucast maxPrefix :: byte);
                   v = (ucast (b AND mask) :: uint32)
               in if v < maxPrefix then Inr (v, rest)
                  else readInteger_loop rest v 0)"

text \<open>\<^verbatim>\<open>readString\<close>. \<^verbatim>\<open>buf.Read(data)\<close> on a slice of \<^verbatim>\<open>length\<close> bytes copies
  \<open>n = min length (buf.Len())\<close> bytes and fails with \<open>EOF\<close> on an empty reader.\<close>

definition readString :: "byte list \<Rightarrow> error + (string \<times> byte list)" where
  "readString buf =
     (case buf of
        [] \<Rightarrow> Inl EOF
      | b # _ \<Rightarrow>
          let huffmanEncoded = (b AND 0x80 \<noteq> 0)
          in case readInteger buf 7 of
               Inl e \<Rightarrow> Inl e
             | Inr (len, rest) \<Rightarrow>
                 if len = 0 then Inr ([], rest)
                 else if len > of_nat (length rest) then Inl StringLengthExceedsBuffer
                 else let n = min (unat len) (length rest);
                          data = take n rest
                      in if rest = [] then Inl EOF
                         else if n \<noteq> unat len then Inl ShortRead
                         else if huffmanEncoded then Inl HuffmanDecodingNotImplemented
                         else Inr (bytes_str data, drop n rest))"

definition decodeIndexedHeader :: "Decoder \<Rightarrow> byte list \<Rightarrow> error + (string \<times> string \<times> byte list)" where
  "decodeIndexedHeader d buf =
     (case readInteger buf 7 of
        Inl e \<Rightarrow> Inl e
      | Inr (index, rest) \<Rightarrow>
          if index = 0 then Inl InvalidIndexZero
          else let staticSize = (of_nat (StaticTable_Size GetStaticTable) :: uint32)
               in if index \<le> staticSize then
                    (case StaticTable_Get GetStaticTable (index - 1) of
                       Inl e \<Rightarrow> Inl e
                     | Inr (name, value) \<Rightarrow> Inr (name, value, rest))
                  else
                    (case Get (dynamicTable_d d) (index - staticSize - 1) of
                       Inl e \<Rightarrow> Inl e
                     | Inr (name, value) \<Rightarrow> Inr (name, value, rest)))"

text \<open>The name of a literal field: read inline when \<^verbatim>\<open>nameIndex == 0\<close>, looked up in the
  static or the dynamic table otherwise. Both literal decoders of the source hold this
  code.\<close>

definition decodeName :: "Decoder \<Rightarrow> uint32 \<Rightarrow> byte list \<Rightarrow> error + (string \<times> byte list)" where
  "decodeName d nameIndex buf =
     (if nameIndex = 0 then readString buf
      else let staticSize = (of_nat (StaticTable_Size GetStaticTable) :: uint32)
           in if nameIndex \<le> staticSize then
                (case StaticTable_Get GetStaticTable (nameIndex - 1) of
                   Inl e \<Rightarrow> Inl e
                 | Inr (name, _) \<Rightarrow> Inr (name, buf))
              else
                (case Get (dynamicTable_d d) (nameIndex - staticSize - 1) of
                   Inl e \<Rightarrow> Inl e
                 | Inr (name, _) \<Rightarrow> Inr (name, buf)))"

definition decodeLiteralWithIndexing :: "Decoder \<Rightarrow> byte list \<Rightarrow> Decoder \<times> (error + (string \<times> string \<times> byte list))" where
  "decodeLiteralWithIndexing d buf =
     (case readInteger buf 6 of
        Inl e \<Rightarrow> (d, Inl e)
      | Inr (nameIndex, rest) \<Rightarrow>
     (case decodeName d nameIndex rest of
        Inl e \<Rightarrow> (d, Inl e)
      | Inr (name, rest1) \<Rightarrow>
     (case readString rest1 of
        Inl e \<Rightarrow> (d, Inl e)
      | Inr (value, rest2) \<Rightarrow>
          (d\<lparr>dynamicTable_d := Add (dynamicTable_d d) name value\<rparr>, Inr (name, value, rest2)))))"

definition decodeLiteralWithoutIndexing :: "Decoder \<Rightarrow> byte list \<Rightarrow> error + (string \<times> string \<times> byte list)" where
  "decodeLiteralWithoutIndexing d buf =
     (case readInteger buf 4 of
        Inl e \<Rightarrow> Inl e
      | Inr (nameIndex, rest) \<Rightarrow>
     (case decodeName d nameIndex rest of
        Inl e \<Rightarrow> Inl e
      | Inr (name, rest1) \<Rightarrow>
     (case readString rest1 of
        Inl e \<Rightarrow> Inl e
      | Inr (value, rest2) \<Rightarrow> Inr (name, value, rest2))))"

text \<open>One pass of the loop of \<^verbatim>\<open>Decode\<close>: the first byte (read, then unread) selects
  the representation.\<close>

definition decode_field :: "Decoder \<Rightarrow> byte list \<Rightarrow> Decoder \<times> (error + (string \<times> string \<times> byte list))" where
  "decode_field d buf =
     (case buf of
        [] \<Rightarrow> (d, Inl EOF)
      | b # _ \<Rightarrow>
          if b AND 0x80 \<noteq> 0 then (d, decodeIndexedHeader d buf)
          else if b AND 0x40 \<noteq> 0 then decodeLiteralWithIndexing d buf
          else (d, decodeLiteralWithoutIndexing d buf))"

text \<open>Every successful decoding step consumes input; the loop of \<^verbatim>\<open>Decode\<close>
  (\<^verbatim>\<open>for buf.Len() > 0\<close>) terminates by it.\<close>

lemma readInteger_loop_consumes:
  "readInteger_loop buf v m = Inr (r, rest) \<Longrightarrow> length rest < length buf"
  by (induction buf arbitrary: v m)
     (auto simp: Let_def split: if_splits dest: less_SucI)

lemma readInteger_consumes:
  "readInteger buf n = Inr (r, rest) \<Longrightarrow> length rest < length buf"
  by (auto simp: readInteger_def Let_def split: if_splits list.splits
           dest: readInteger_loop_consumes)

lemma readString_consumes:
  "readString buf = Inr (s, rest) \<Longrightarrow> length rest < length buf"
  by (auto simp: readString_def Let_def split: if_splits list.splits sum.splits
           dest!: readInteger_consumes)

lemma decodeName_consumes:
  "decodeName d i buf = Inr (s, rest) \<Longrightarrow> length rest \<le> length buf"
  by (auto simp: decodeName_def Let_def split: if_splits sum.splits
           dest!: readString_consumes)

lemma decode_field_consumes:
  "decode_field d buf = (d', Inr (name, v, rest)) \<Longrightarrow> length rest < length buf"
  by (auto simp: decode_field_def decodeIndexedHeader_def decodeLiteralWithIndexing_def
                 decodeLiteralWithoutIndexing_def Let_def
           split: if_splits list.splits sum.splits
           dest!: readInteger_consumes readString_consumes decodeName_consumes)

text \<open>\<^verbatim>\<open>Decode\<close> returns the decoder as the call leaves it and either the error or the
  decoded fields: the pairs \<open>(name, value)\<close> it hands to \<^verbatim>\<open>headers.Add\<close> of the Go
  library, in the order of the calls.\<close>

function Decode_loop :: "Decoder \<Rightarrow> byte list \<Rightarrow> (string \<times> string) list \<Rightarrow> Decoder \<times> (error + (string \<times> string) list)" where
  "Decode_loop d buf headers =
     (if buf = [] then (d, Inr headers)
      else case decode_field d buf of
             (d', Inl err) \<Rightarrow> (d', Inl err)
           | (d', Inr (name, v, rest)) \<Rightarrow> Decode_loop d' rest (headers @ [(name, v)]))"
  by pat_completeness auto
termination
  by (relation "measure (\<lambda>(d, buf, headers). length buf)")
     (auto dest: decode_field_consumes [OF sym])

declare Decode_loop.simps [simp del]

definition Decode :: "Decoder \<Rightarrow> byte list \<Rightarrow> Decoder \<times> (error + (string \<times> string) list)" where
  "Decode d data = (if data = [] then (d, Inr []) else Decode_loop d data [])"

section \<open>Data sub-header (protocol: DataHeader, encodeDataPayload, DecodeDataPayload)\<close>

text \<open>\<^verbatim>\<open>DataType\<close> is a \<^verbatim>\<open>uint8\<close>.\<close>

record DataHeader =
  Type :: byte
  IsLast :: bool
  StreamID :: string
  RequestID :: string

definition DataTypeData :: byte where "DataTypeData = 0x00"
definition DataTypeResponse :: byte where "DataTypeResponse = 0x01"
definition DataTypeClose :: byte where "DataTypeClose = 0x02"
definition DataTypeHTTPRequest :: byte where "DataTypeHTTPRequest = 0x03"
definition DataTypeHTTPResponse :: byte where "DataTypeHTTPResponse = 0x04"
definition DataTypeHTTPHead :: byte where "DataTypeHTTPHead = 0x05"
definition DataTypeHTTPBodyChunk :: byte where "DataTypeHTTPBodyChunk = 0x06"

definition binaryHeaderMinSize :: nat where
  "binaryHeaderMinSize = 5"

text \<open>\<^verbatim>\<open>binary.BigEndian.PutUint16\<close> and \<^verbatim>\<open>binary.BigEndian.Uint16\<close> of the Go library.\<close>

definition PutUint16 :: "16 word \<Rightarrow> byte list" where
  "PutUint16 v = [ucast (drop_bit 8 v), ucast v]"

definition Uint16 :: "byte \<Rightarrow> byte \<Rightarrow> 16 word" where
  "Uint16 b0 b1 = ucast b1 OR push_bit 8 (ucast b0)"

definition dh_flags :: "DataHeader \<Rightarrow> byte" where
  "dh_flags h = (let flags = Type h AND 0x07 in if IsLast h then flags OR 0x08 else flags)"

text \<open>\<^verbatim>\<open>MarshalBinary\<close> fills a buffer of exactly \<open>5 + len(StreamID) + len(RequestID)\<close>
  bytes: the flags, the two lengths as \<^verbatim>\<open>uint16\<close>, then the two identifiers.\<close>

definition MarshalBinary :: "DataHeader \<Rightarrow> byte list" where
  "MarshalBinary h =
     [dh_flags h]
     @ PutUint16 (of_nat (length (StreamID h)))
     @ PutUint16 (of_nat (length (RequestID h)))
     @ str_bytes (StreamID h)
     @ str_bytes (RequestID h)"

definition encodeDataPayload :: "DataHeader \<Rightarrow> byte list \<Rightarrow> error + byte list" where
  "encodeDataPayload header data =
     Inr ([dh_flags header]
          @ PutUint16 (of_nat (length (StreamID header)))
          @ PutUint16 (of_nat (length (RequestID header)))
          @ str_bytes (StreamID header)
          @ str_bytes (RequestID header)
          @ data)"

text \<open>\<^verbatim>\<open>UnmarshalBinary\<close> writes into its receiver: the model takes the receiver and
  returns it as the call leaves it, with the error if there is one.\<close>

definition UnmarshalBinary :: "DataHeader \<Rightarrow> byte list \<Rightarrow> DataHeader \<times> error option" where
  "UnmarshalBinary h data =
     (if length data < binaryHeaderMinSize then (h, Some HeaderTooShort)
      else let flags = data ! 0;
               h1 = h\<lparr>Type := flags AND 0x07, IsLast := (flags AND 0x08 \<noteq> 0)\<rparr>;
               streamIDLen = unat (Uint16 (data ! 1) (data ! 2));
               requestIDLen = unat (Uint16 (data ! 3) (data ! 4));
               expectedLen = binaryHeaderMinSize + streamIDLen + requestIDLen
           in if length data < expectedLen then (h1, Some HeaderLengthMismatch)
              else let offset = binaryHeaderMinSize;
                       h2 = h1\<lparr>StreamID := bytes_str (take streamIDLen (drop offset data))\<rparr>;
                       offset' = offset + streamIDLen
                   in (h2\<lparr>RequestID := bytes_str (take requestIDLen (drop offset' data))\<rparr>, None))"

definition Size :: "DataHeader \<Rightarrow> nat" where
  "Size h = binaryHeaderMinSize + length (StreamID h) + length (RequestID h)"

definition DecodeDataPayload :: "byte list \<Rightarrow> error + (DataHeader \<times> byte list)" where
  "DecodeDataPayload payload =
     (if length payload < binaryHeaderMinSize then Inl PayloadTooShort
      else case UnmarshalBinary \<lparr>Type = 0, IsLast = False, StreamID = [], RequestID = []\<rparr> payload of
             (header, Some err) \<Rightarrow> Inl err
           | (header, None) \<Rightarrow>
               let headerSize = Size header
               in if length payload < headerSize then Inl PayloadDataMissing
                  else Inr (header, drop headerSize payload))"

section \<open>Operations on a dynamic table, as a sequence\<close>

text \<open>The table's \<^verbatim>\<open>size\<close> field against the sizes of the entries it holds, both in the
  \<^verbatim>\<open>uint32\<close> arithmetic of \<^verbatim>\<open>HeaderField.Size\<close> and of the field.\<close>

definition size_ok :: "DynamicTable \<Rightarrow> bool" where
  "size_ok dt = (size_dt dt = sum_list (map HeaderField_Size (entries dt)))"

text \<open>The calls a client can make on a table. \<^verbatim>\<open>Get\<close>, \<^verbatim>\<open>FindExact\<close> and \<^verbatim>\<open>FindName\<close>
  return values and leave the table as it is.\<close>

datatype dt_op =
    OpAdd string string
  | OpGet uint32
  | OpFindExact string string
  | OpFindName string
  | OpSetMaxSize uint32

fun apply_op :: "DynamicTable \<Rightarrow> dt_op \<Rightarrow> DynamicTable" where
  "apply_op dt (OpAdd name v) = Add dt name v"
| "apply_op dt (OpGet index) = (case Get dt index of _ \<Rightarrow> dt)"
| "apply_op dt (OpFindExact name v) = (case FindExact dt name v of _ \<Rightarrow> dt)"
| "apply_op dt (OpFindName name) = (case FindName dt name of _ \<Rightarrow> dt)"
| "apply_op dt (OpSetMaxSize m) = SetMaxSize dt m"

text \<open>The sum of \<open>len(name) + len(value) + 32\<close> over a list of entries, as a natural
  number.\<close>

definition exact_size :: "HeaderField list \<Rightarrow> nat" where
  "exact_size es = sum_list (map (\<lambda>f. length (Name f) + length (Value f) + 32) es)"

text \<open>The header of the specification's round-trip scenario.\<close>

definition example_header :: DataHeader where
  "example_header = \<lparr>Type = DataTypeHTTPBodyChunk, IsLast = True, StreamID = ''s1'', RequestID = ''r''\<rparr>"

text \<open>A header set with one name and three values, the first and the last equal.\<close>

definition repeated_header :: Header where
  "repeated_header = [(''X-A'', [''1'', ''2'', ''1''])]"

section \<open>Frame writer (protocol: FrameWriter)\<close>

text \<open>
  A \<^verbatim>\<open>*Frame\<close> is a pointer: \<open>fid\<close> is its identity, and the field \<^verbatim>\<open>queuedBytes\<close> that
  the writer stores into the frame is kept per identity in \<open>frame_queuedBytes\<close> of the
  writer's state. The type \<^verbatim>\<open>Frame\<close>, the constant \<^verbatim>\<open>FrameHeaderSize\<close> and the package
  function \<^verbatim>\<open>WriteFrame(conn, frame)\<close> are declared in a file that is not among the
  sources: the constant is a field of the state, and the byte writer is modelled by
  the next definitions.
\<close>

record Frame =
  fid :: nat
  Payload :: "byte list"

text \<open>
  Modelled from the spec: the byte writer \<^verbatim>\<open>conn\<close> (an \<^verbatim>\<open>io.Writer\<close>) and the package
  function \<^verbatim>\<open>WriteFrame\<close>, which writes the wire form of a frame (fixed-size header, then
  payload) to it and returns the writer's error. \<open>outcomes\<close> lists what the coming writes
  will return, \<open>None\<close> for success (and success once the list is used up); \<open>attempted\<close> are
  the frames handed to the writer, \<open>emitted\<close> those it has accepted.
\<close>

record Conn =
  outcomes :: "error option list"
  attempted :: "Frame list"
  emitted :: "Frame list"

definition WriteFrame :: "Conn \<Rightarrow> Frame \<Rightarrow> Conn \<times> error option" where
  "WriteFrame c frame =
     (case outcomes c of
        [] \<Rightarrow> (c\<lparr>attempted := attempted c @ [frame], emitted := emitted c @ [frame]\<rparr>, None)
      | None # rest \<Rightarrow>
          (c\<lparr>outcomes := rest, attempted := attempted c @ [frame], emitted := emitted c @ [frame]\<rparr>, None)
      | Some err # rest \<Rightarrow>
          (c\<lparr>outcomes := rest, attempted := attempted c @ [frame]\<rparr>, Some err))"

text \<open>
  The writer. \<open>queue\<close> and \<open>controlQueue\<close> are the buffered channels with their
  capacities, \<open>queues_closed\<close> says that \<^verbatim>\<open>Close\<close> has closed them, \<open>done_closed\<close> that it has
  closed \<^verbatim>\<open>done\<close>. \<open>errOnce\<close> is true once \<^verbatim>\<open>errOnce.Do\<close> has run; \<open>onWriteError_calls\<close> lists
  the errors the callback was started with. \<open>heartbeatControl\<close> is the one-slot signal
  channel (true when it holds a signal) and \<open>heartbeatTicker\<close> says that the loop has a
  ticker running. The counters are \<^verbatim>\<open>atomic.Int64\<close>; they are integers here. \<open>pending\<close> and
  \<open>pending_control\<close> are the producers that wait in the blocking \<^verbatim>\<open>select\<close> of an enqueue
  (they hold \<^verbatim>\<open>enqueueMu\<close> for reading), with the flag whether a cancel channel was given.
  \<open>loop_exited\<close> says that \<^verbatim>\<open>writeLoop\<close> has returned.
\<close>

record FrameWriter =
  conn :: Conn
  queue :: "Frame list"
  controlQueue :: "Frame list"
  queue_cap :: nat
  controlQueue_cap :: nat
  queues_closed :: bool
  batch :: "Frame list"
  done_closed :: bool
  closed :: bool
  maxBatch :: int
  maxBatchWait :: int
  heartbeatInterval :: int
  heartbeatCallbackSet :: bool
  heartbeatEnabled :: bool
  heartbeatControl :: bool
  heartbeatTicker :: bool
  writeErr :: "error option"
  errOnce :: bool
  onWriteErrorSet :: bool
  onWriteError_calls :: "error list"
  adaptiveFlush :: bool
  lowConcurrencyThreshold :: int
  queuedFrames :: int
  queuedBytes :: int
  frame_queuedBytes :: "nat \<Rightarrow> int"
  pending :: "(Frame \<times> bool) list"
  pending_control :: "Frame list"
  loop_exited :: bool
  FrameHeaderSize :: int

definition NewFrameWriterWithConfig :: "Conn \<Rightarrow> int \<Rightarrow> int \<Rightarrow> nat \<Rightarrow> int \<Rightarrow> FrameWriter" where
  "NewFrameWriterWithConfig c maxBatch' maxBatchWait' queueSize hdr =
     \<lparr>conn = c, queue = [], controlQueue = [],
      queue_cap = queueSize,
      controlQueue_cap = (if queueSize < 256 then queueSize else 256),
      queues_closed = False, batch = [], done_closed = False, closed = False,
      maxBatch = maxBatch', maxBatchWait = maxBatchWait',
      heartbeatInterval = 0, heartbeatCallbackSet = False, heartbeatEnabled = False,
      heartbeatControl = False, heartbeatTicker = False,
      writeErr = None, errOnce = False, onWriteErrorSet = False, onWriteError_calls = [],
      adaptiveFlush = False, lowConcurrencyThreshold = 0,
      queuedFrames = 0, queuedBytes = 0, frame_queuedBytes = (\<lambda>_. 0),
      pending = [], pending_control = [], loop_exited = False,
      FrameHeaderSize = hdr\<rparr>"

definition EnableAdaptiveFlush :: "FrameWriter \<Rightarrow> int \<Rightarrow> FrameWriter" where
  "EnableAdaptiveFlush w n = w\<lparr>adaptiveFlush := True, lowConcurrencyThreshold := n\<rparr>"

definition DisableAdaptiveFlush :: "FrameWriter \<Rightarrow> FrameWriter" where
  "DisableAdaptiveFlush w = w\<lparr>adaptiveFlush := False\<rparr>"

text \<open>\<^verbatim>\<open>NewFrameWriter\<close>: batches of 256, a batch wait of 2 ms (in nanoseconds), a queue of
  4096, adaptive flush below 16.\<close>

definition NewFrameWriter :: "Conn \<Rightarrow> int \<Rightarrow> FrameWriter" where
  "NewFrameWriter c hdr = EnableAdaptiveFlush (NewFrameWriterWithConfig c 256 2000000 4096 hdr) 16"

definition SetWriteErrorHandler :: "FrameWriter \<Rightarrow> bool \<Rightarrow> FrameWriter" where
  "SetWriteErrorHandler w handler_set = w\<lparr>onWriteErrorSet := handler_set\<rparr>"

definition EnableHeartbeat :: "FrameWriter \<Rightarrow> int \<Rightarrow> bool \<Rightarrow> FrameWriter" where
  "EnableHeartbeat w interval callback_set =
     w\<lparr>heartbeatInterval := interval, heartbeatCallbackSet := callback_set,
       heartbeatEnabled := True, heartbeatControl := True\<rparr>"

definition DisableHeartbeat :: "FrameWriter \<Rightarrow> FrameWriter" where
  "DisableHeartbeat w = w\<lparr>heartbeatEnabled := False, heartbeatControl := True\<rparr>"

definition QueuedFrames :: "FrameWriter \<Rightarrow> int" where
  "QueuedFrames w = queuedFrames w"

definition QueuedBytes :: "FrameWriter \<Rightarrow> int" where
  "QueuedBytes w = queuedBytes w"

text \<open>\<^verbatim>\<open>unmarkQueued\<close>: \<^verbatim>\<open>atomic.SwapInt64(&frame.queuedBytes, 0)\<close>, then the counters if
  the frame's counter was positive.\<close>

definition unmarkQueued :: "FrameWriter \<Rightarrow> Frame \<Rightarrow> FrameWriter" where
  "unmarkQueued w frame =
     (let sz = frame_queuedBytes w (fid frame);
          w' = w\<lparr>frame_queuedBytes := (frame_queuedBytes w)(fid frame := 0)\<rparr>
      in if sz \<le> 0 then w'
         else w'\<lparr>queuedFrames := queuedFrames w' - 1, queuedBytes := queuedBytes w' - sz\<rparr>)"

text \<open>The body passed to \<^verbatim>\<open>w.errOnce.Do\<close> in \<^verbatim>\<open>flushFrameLocked\<close>: it runs on the first call
  only.\<close>

definition errOnce_Do :: "FrameWriter \<Rightarrow> error \<Rightarrow> FrameWriter" where
  "errOnce_Do w err =
     (if errOnce w then w
      else w\<lparr>errOnce := True,
             writeErr := Some err,
             onWriteError_calls :=
               (if onWriteErrorSet w then onWriteError_calls w @ [err] else onWriteError_calls w),
             closed := True\<rparr>)"

text \<open>\<^verbatim>\<open>flushFrameLocked\<close>, for a frame that is not \<^verbatim>\<open>nil\<close>. The pre-write hook and
  \<^verbatim>\<open>frame.Release()\<close> do not touch the writer's state.\<close>

definition flushFrameLocked :: "FrameWriter \<Rightarrow> Frame \<Rightarrow> FrameWriter" where
  "flushFrameLocked w frame =
     (case WriteFrame (conn w) frame of
        (c, None) \<Rightarrow> unmarkQueued (w\<lparr>conn := c\<rparr>) frame
      | (c, Some err) \<Rightarrow> unmarkQueued (errOnce_Do (w\<lparr>conn := c\<rparr>) err) frame)"

definition flushBatchLocked :: "FrameWriter \<Rightarrow> FrameWriter" where
  "flushBatchLocked w =
     (if batch w = [] then w
      else (foldl flushFrameLocked w (batch w))\<lparr>batch := []\<rparr>)"

text \<open>What an enqueue returns when it finds the writer closed or \<^verbatim>\<open>done\<close> closed:
  \<^verbatim>\<open>w.writeErr\<close> if there is one, "writer closed" otherwise.\<close>

definition closed_error :: "FrameWriter \<Rightarrow> error" where
  "closed_error w = (case writeErr w of Some e \<Rightarrow> e | None \<Rightarrow> WriterClosed)"

text \<open>The three statements every abandoned enqueue runs:
  \<^verbatim>\<open>w.queuedFrames.Add(-1); w.queuedBytes.Add(-size); atomic.StoreInt64(&frame.queuedBytes, 0)\<close>.\<close>

definition abandon :: "FrameWriter \<Rightarrow> Frame \<Rightarrow> int \<Rightarrow> FrameWriter" where
  "abandon w frame sz =
     w\<lparr>queuedFrames := queuedFrames w - 1,
       queuedBytes := queuedBytes w - sz,
       frame_queuedBytes := (frame_queuedBytes w)(fid frame := 0)\<rparr>"

text \<open>
  An enqueue is two steps, since other goroutines run while it waits. The first step is
  \<^verbatim>\<open>WriteFrameWithCancel\<close> up to its first, non-blocking \<^verbatim>\<open>select\<close>: the \<^verbatim>\<open>nil\<close> and closed
  checks, the counters, then the send if the queue has room, the \<^verbatim>\<open>done\<close> case if \<^verbatim>\<open>done\<close>
  is closed (\<open>pick_send\<close> decides when both are ready, as Go picks at random), else
  \<^verbatim>\<open>default\<close>: the producer goes on to a blocking \<^verbatim>\<open>select\<close>.
\<close>

datatype enter_result = Returned "error option" | Waiting

definition WriteFrameWithCancel_enter :: "FrameWriter \<Rightarrow> Frame option \<Rightarrow> bool \<Rightarrow> bool \<Rightarrow> FrameWriter \<times> enter_result" where
  "WriteFrameWithCancel_enter w frame cancel pick_send =
     (case frame of
        None \<Rightarrow> (w, Returned None)
      | Some f \<Rightarrow>
          if closed w then (w, Returned (Some (closed_error w)))
          else let sz = int (length (Payload f)) + FrameHeaderSize w;
                   w1 = w\<lparr>queuedFrames := queuedFrames w + 1,
                          queuedBytes := queuedBytes w + sz,
                          frame_queuedBytes := (frame_queuedBytes w)(fid f := sz)\<rparr>;
                   send_ready = (length (queue w1) < queue_cap w1);
                   done_ready = done_closed w1
               in if send_ready \<and> (\<not> done_ready \<or> pick_send)
                  then (w1\<lparr>queue := queue w1 @ [f]\<rparr>, Returned None)
                  else if done_ready
                  then (abandon w1 f sz, Returned (Some (closed_error w1)))
                  else (w1\<lparr>pending := pending w1 @ [(f, cancel)]\<rparr>, Waiting))"

text \<open>The second step is the blocking \<^verbatim>\<open>select\<close> of a waiting producer, in the state in
  which one of its cases fires: the send (the queue has room again), \<^verbatim>\<open>done\<close>, the cancel
  channel if one was given, or the 30 s timer if none was. \<open>None\<close>: the case cannot fire in
  this state.\<close>

datatype select_case = CaseSend | CaseDone | CaseCancel | CaseTimer

definition WriteFrameWithCancel_wait :: "FrameWriter \<Rightarrow> Frame \<Rightarrow> bool \<Rightarrow> select_case \<Rightarrow> (FrameWriter \<times> error option) option" where
  "WriteFrameWithCancel_wait w f cancel c =
     (if (f, cancel) \<notin> set (pending w) then None
      else let sz = int (length (Payload f)) + FrameHeaderSize w;
               w0 = w\<lparr>pending := remove1 (f, cancel) (pending w)\<rparr>
           in case c of
                CaseSend \<Rightarrow>
                  if length (queue w0) < queue_cap w0
                  then Some (w0\<lparr>queue := queue w0 @ [f]\<rparr>, None) else None
              | CaseDone \<Rightarrow>
                  if done_closed w0
                  then Some (abandon w0 f sz, Some (closed_error w0)) else None
              | CaseCancel \<Rightarrow>
                  if cancel then Some (abandon w0 f sz, Some WriteCancelled) else None
              | CaseTimer \<Rightarrow>
                  if cancel then None else Some (abandon w0 f sz, Some WriteQueueFullTimeout))"

text \<open>\<^verbatim>\<open>WriteFrame(frame)\<close> of the writer is \<^verbatim>\<open>WriteFrameWithCancel(frame, nil)\<close>.\<close>

definition FrameWriter_WriteFrame_enter :: "FrameWriter \<Rightarrow> Frame option \<Rightarrow> bool \<Rightarrow> FrameWriter \<times> enter_result" where
  "FrameWriter_WriteFrame_enter w frame pick_send = WriteFrameWithCancel_enter w frame False pick_send"

text \<open>\<^verbatim>\<open>WriteControl\<close>, in the same two steps, on the control queue; its blocking
  \<^verbatim>\<open>select\<close> has the send, \<^verbatim>\<open>done\<close> and a 50 ms timer.\<close>

definition WriteControl_enter :: "FrameWriter \<Rightarrow> Frame option \<Rightarrow> bool \<Rightarrow> FrameWriter \<times> enter_result" where
  "WriteControl_enter w frame pick_send =
     (case frame of
        None \<Rightarrow> (w, Returned None)
      | Some f \<Rightarrow>
          if closed w then (w, Returned (Some (closed_error w)))
          else let sz = int (length (Payload f)) + FrameHeaderSize w;
                   w1 = w\<lparr>queuedFrames := queuedFrames w + 1,
                          queuedBytes := queuedBytes w + sz,
                          frame_queuedBytes := (frame_queuedBytes w)(fid f := sz)\<rparr>;
                   send_ready = (length (controlQueue w1) < controlQueue_cap w1);
                   done_ready = done_closed w1
               in if send_ready \<and> (\<not> done_ready \<or> pick_send)
                  then (w1\<lparr>controlQueue := controlQueue w1 @ [f]\<rparr>, Returned None)
                  else if done_ready
                  then (abandon w1 f sz, Returned (Some (closed_error w1)))
                  else (w1\<lparr>pending_control := pending_control w1 @ [f]\<rparr>, Waiting))"

definition WriteControl_wait :: "FrameWriter \<Rightarrow> Frame \<Rightarrow> select_case \<Rightarrow> (FrameWriter \<times> error option) option" where
  "WriteControl_wait w f c =
     (if f \<notin> set (pending_control w) then None
      else let sz = int (length (Payload f)) + FrameHeaderSize w;
               w0 = w\<lparr>pending_control := remove1 f (pending_control w)\<rparr>
           in case c of
                CaseSend \<Rightarrow>
                  if length (controlQueue w0) < controlQueue_cap w0
                  then Some (w0\<lparr>controlQueue := controlQueue w0 @ [f]\<rparr>, None) else None
              | CaseDone \<Rightarrow>
                  if done_closed w0
                  then Some (abandon w0 f sz, Some (closed_error w0)) else None
              | CaseCancel \<Rightarrow> None
              | CaseTimer \<Rightarrow> Some (abandon w0 f sz, Some ControlQueueFullTimeout))"

text \<open>\<^verbatim>\<open>Close\<close> returns \<^verbatim>\<open>nil\<close> on both paths; the model returns the writer. It takes
  \<^verbatim>\<open>enqueueMu\<close> for writing, so it runs when no producer is inside an enqueue. The two
  \<^verbatim>\<open>range\<close> loops receive what the closed channels still hold.\<close>

definition Close :: "FrameWriter \<Rightarrow> FrameWriter" where
  "Close w =
     (if closed w then w
      else let w1 = w\<lparr>closed := True, queues_closed := True\<rparr>;
               w2 = (foldl unmarkQueued w1 (queue w1))\<lparr>queue := []\<rparr>;
               w3 = (foldl unmarkQueued w2 (controlQueue w2))\<lparr>controlQueue := []\<rparr>
           in w3\<lparr>done_closed := True\<rparr>)"

text \<open>\<^verbatim>\<open>Flush\<close>: unless closed, everything the queue holds joins the batch, and the
  batch is written.\<close>

definition Flush :: "FrameWriter \<Rightarrow> FrameWriter" where
  "Flush w =
     (if closed w then w
      else flushBatchLocked (w\<lparr>batch := batch w @ queue w, queue := []\<rparr>))"

text \<open>
  \<^verbatim>\<open>writeLoop\<close>, one case of one \<^verbatim>\<open>select\<close> at a time; each case runs under \<^verbatim>\<open>w.mu\<close>.
  \<open>None\<close>: the case cannot fire in this state. The control case is the first \<^verbatim>\<open>select\<close>
  of an iteration; the other cases belong to the second \<^verbatim>\<open>select\<close>, which the loop reaches
  when the control queue was empty a moment before, so they can fire with a control
  frame present. A receive on a closed and empty channel gives \<^verbatim>\<open>ok == false\<close>: the loop
  writes its batch and returns.
\<close>

definition loop_control :: "FrameWriter \<Rightarrow> FrameWriter option" where
  "loop_control w =
     (if loop_exited w then None
      else case controlQueue w of
             frame # rest \<Rightarrow> Some (flushFrameLocked (w\<lparr>controlQueue := rest\<rparr>) frame)
           | [] \<Rightarrow> if queues_closed w then Some ((flushBatchLocked w)\<lparr>loop_exited := True\<rparr>)
                   else None)"

definition loop_data :: "FrameWriter \<Rightarrow> FrameWriter option" where
  "loop_data w =
     (if loop_exited w then None
      else case queue w of
             frame # rest \<Rightarrow>
               let w1 = w\<lparr>queue := rest, batch := batch w @ [frame]\<rparr>;
                   shouldFlushNow =
                     (int (length (batch w1)) \<ge> maxBatch w1
                      \<or> (adaptiveFlush w1 \<and> int (length (queue w1)) \<le> lowConcurrencyThreshold w1))
               in Some (if shouldFlushNow then flushBatchLocked w1 else w1)
           | [] \<Rightarrow> if queues_closed w then Some ((flushBatchLocked w)\<lparr>loop_exited := True\<rparr>)
                   else None)"

definition loop_tick :: "FrameWriter \<Rightarrow> FrameWriter option" where
  "loop_tick w =
     (if loop_exited w then None
      else Some (if batch w \<noteq> [] then flushBatchLocked w else w))"

text \<open>The heartbeat case; \<open>frame\<close> is what the callback returns, \<open>None\<close> for \<^verbatim>\<open>nil\<close>.\<close>

definition loop_heartbeat :: "FrameWriter \<Rightarrow> Frame option \<Rightarrow> FrameWriter option" where
  "loop_heartbeat w frame =
     (if loop_exited w \<or> \<not> heartbeatTicker w then None
      else if heartbeatCallbackSet w
           then (case frame of None \<Rightarrow> Some w | Some f \<Rightarrow> Some (flushFrameLocked w f))
           else Some w)"

definition loop_heartbeatControl :: "FrameWriter \<Rightarrow> FrameWriter option" where
  "loop_heartbeatControl w =
     (if loop_exited w \<or> \<not> heartbeatControl w then None
      else Some (w\<lparr>heartbeatControl := False,
                  heartbeatTicker := (heartbeatEnabled w \<and> heartbeatInterval w > 0)\<rparr>))"

definition loop_done :: "FrameWriter \<Rightarrow> FrameWriter option" where
  "loop_done w =
     (if loop_exited w \<or> \<not> done_closed w then None
      else Some ((flushBatchLocked w)\<lparr>loop_exited := True\<rparr>))"

text \<open>The events of a writer's life: the calls of its clients and the cases of its loop.\<close>

datatype event =
    EvWriteFrame Frame bool bool
  | EvWriteFrameWait Frame bool select_case
  | EvWriteControl Frame bool
  | EvWriteControlWait Frame select_case
  | EvClose
  | EvFlush
  | EvLoopControl
  | EvLoopData
  | EvLoopTick
  | EvLoopHeartbeat "Frame option"
  | EvLoopHeartbeatControl
  | EvLoopDone
  | EvEnableHeartbeat int bool
  | EvDisableHeartbeat
  | EvSetWriteErrorHandler bool
  | EvEnableAdaptiveFlush int
  | EvDisableAdaptiveFlush

fun step :: "FrameWriter \<Rightarrow> event \<Rightarrow> FrameWriter option" where
  "step w (EvWriteFrame f cancel pick) = Some (fst (WriteFrameWithCancel_enter w (Some f) cancel pick))"
| "step w (EvWriteFrameWait f cancel c) = map_option fst (WriteFrameWithCancel_wait w f cancel c)"
| "step w (EvWriteControl f pick) = Some (fst (WriteControl_enter w (Some f) pick))"
| "step w (EvWriteControlWait f c) = map_option fst (WriteControl_wait w f c)"
| "step w EvClose = (if pending w = [] \<and> pending_control w = [] then Some (Close w) else None)"
| "step w EvFlush = Some (Flush w)"
| "step w EvLoopControl = loop_control w"
| "step w EvLoopData = loop_data w"
| "step w EvLoopTick = loop_tick w"
| "step w (EvLoopHeartbeat frame) = loop_heartbeat w frame"
| "step w EvLoopHeartbeatControl = loop_heartbeatControl w"
| "step w EvLoopDone = loop_done w"
| "step w (EvEnableHeartbeat interval callback_set) = Some (EnableHeartbeat w interval callback_set)"
| "step w EvDisableHeartbeat = Some (DisableHeartbeat w)"
| "step w (EvSetWriteErrorHandler handler_set) = Some (SetWriteErrorHandler w handler_set)"
| "step w (EvEnableAdaptiveFlush n) = Some (EnableAdaptiveFlush w n)"
| "step w EvDisableAdaptiveFlush = Some (DisableAdaptiveFlush w)"

text \<open>The frames the writer holds: in its queues, in the loop's batch, or in the hands of
  a waiting producer.\<close>

definition held :: "FrameWriter \<Rightarrow> Frame list" where
  "held w = queue w @ controlQueue w @ batch w @ map fst (pending w) @ pending_control w"

text \<open>A producer hands over a frame it owns: one the writer does not hold, whose
  \<^verbatim>\<open>queuedBytes\<close> is zero. The same holds for the frame a heartbeat callback makes.\<close>

definition fresh :: "FrameWriter \<Rightarrow> Frame \<Rightarrow> bool" where
  "fresh w f = (fid f \<notin> fid ` set (held w) \<and> frame_queuedBytes w (fid f) = 0)"

fun event_ok :: "FrameWriter \<Rightarrow> event \<Rightarrow> bool" where
  "event_ok w (EvWriteFrame f cancel pick) = fresh w f"
| "event_ok w (EvWriteControl f pick) = fresh w f"
| "event_ok w (EvLoopHeartbeat (Some f)) = fresh w f"
| "event_ok w _ = True"

fun run :: "FrameWriter \<Rightarrow> event list \<Rightarrow> FrameWriter option" where
  "run w [] = Some w"
| "run w (ev # evs) =
     (if event_ok w ev
      then (case step w ev of None \<Rightarrow> None | Some w' \<Rightarrow> run w' evs)
      else None)"

text \<open>The accounting of a list of frames by the counters: the frames are distinct, each
  carries its size (\<^verbatim>\<open>len(frame.Payload) + FrameHeaderSize\<close>), and the counters are their
  number and the sum of their sizes.\<close>

definition frame_size :: "int \<Rightarrow> Frame \<Rightarrow> int" where
  "frame_size hdr f = int (length (Payload f)) + hdr"

definition accounted :: "FrameWriter \<Rightarrow> Frame list \<Rightarrow> bool" where
  "accounted w fs =
     (distinct (map fid fs)
      \<and> list_all (\<lambda>f. frame_queuedBytes w (fid f) = frame_size (FrameHeaderSize w) f) fs
      \<and> queuedFrames w = int (length fs)
      \<and> queuedBytes w = sum_list (map (frame_size (FrameHeaderSize w)) fs)
      \<and> 0 < FrameHeaderSize w)"

definition counters_ok :: "FrameWriter \<Rightarrow> bool" where
  "counters_ok w = accounted w (held w)"

section \<open>Runs of a frame writer, and what is observed of them\<close>

text \<open>A run applies events one after another and stops with \<open>None\<close> at an event that
  cannot fire; \<open>run\<close> above asks in addition that every frame handed over is fresh.\<close>

fun steps :: "FrameWriter \<Rightarrow> event list \<Rightarrow> FrameWriter option" where
  "steps w [] = Some w"
| "steps w (ev # evs) = (case step w ev of None \<Rightarrow> None | Some w' \<Rightarrow> steps w' evs)"

text \<open>The error \<open>e\<close> is latched: \<^verbatim>\<open>errOnce\<close> has run, the writer is marked closed and
  \<^verbatim>\<open>writeErr\<close> is \<open>e\<close>. \<open>latch\<close> collects what \<^verbatim>\<open>errOnce.Do\<close> writes.\<close>

definition latched :: "FrameWriter \<Rightarrow> error \<Rightarrow> bool" where
  "latched w e = (errOnce w \<and> closed w \<and> writeErr w = Some e)"

definition latch :: "FrameWriter \<Rightarrow> bool \<times> bool \<times> error option \<times> error list" where
  "latch w = (errOnce w, closed w, writeErr w, onWriteError_calls w)"

text \<open>What a test sees of a writer: the latched error, the closed flag, the frames the
  byte writer has accepted, and the two backlog counters.\<close>

definition observe :: "FrameWriter \<Rightarrow> error option \<times> bool \<times> Frame list \<times> int \<times> int" where
  "observe w = (writeErr w, closed w, emitted (conn w), QueuedFrames w, QueuedBytes w)"

text \<open>Two byte writers, one whose first write fails and whose later writes succeed, one
  that never fails; two frames; a writer after its first write has failed; and a writer
  with one frame in its queue and one in the batch of its loop.\<close>

definition conn_fail_then_ok :: Conn where
  "conn_fail_then_ok = \<lparr>outcomes = [Some (ConnError 1), None], attempted = [], emitted = []\<rparr>"


definition frame_a :: Frame where "frame_a = \<lparr>fid = 1, Payload = [0x61]\<rparr>"

definition frame_b :: Frame where "frame_b = \<lparr>fid = 2, Payload = [0x62, 0x62]\<rparr>"

definition after_error :: FrameWriter where
  "after_error = flushFrameLocked (NewFrameWriter conn_fail_then_ok 5) frame_a"


section \<open>Properties of the dynamic table\<close>

lemma size_ok_evictOldest: "size_ok dt \<Longrightarrow> size_ok (evictOldest dt)"
proof (cases "entries dt = []")
  case True
  then show "size_ok dt \<Longrightarrow> size_ok (evictOldest dt)" by (simp add: evictOldest_def)
next
  case False
  assume ok: "size_ok dt"
  from False have split: "entries dt = butlast (entries dt) @ [last (entries dt)]" by simp
  have "sum_list (map HeaderField_Size (entries dt))
        = sum_list (map HeaderField_Size (butlast (entries dt))) + HeaderField_Size (last (entries dt))"
    by (subst split) simp
  with ok False show "size_ok (evictOldest dt)"
    by (simp add: size_ok_def evictOldest_def)
qed

lemma size_ok_Add_evict: "size_ok dt \<Longrightarrow> size_ok (Add_evict fs dt)"
proof (induction fs dt rule: Add_evict.induct)
  case (1 fieldSize dt)
  show ?case
  proof (cases "size_dt dt + fieldSize > maxSize dt \<and> entries dt \<noteq> []")
    case True
    with 1 show ?thesis by (subst Add_evict.simps) (simp add: size_ok_evictOldest)
  next
    case False
    with 1 show ?thesis by (subst Add_evict.simps) auto
  qed
qed

lemma size_ok_Add: "size_ok dt \<Longrightarrow> size_ok (Add dt name v)"
proof -
  assume ok: "size_ok dt"
  let ?f = "\<lparr>Name = name, Value = v\<rparr>"
  show ?thesis
  proof (cases "HeaderField_Size ?f > maxSize dt")
    case True
    then show ?thesis by (simp add: Add_def evictAll_def size_ok_def)
  next
    case False
    from ok have "size_ok (Add_evict (HeaderField_Size ?f) dt)" by (rule size_ok_Add_evict)
    with False show ?thesis by (simp add: Add_def Let_def size_ok_def)
  qed
qed

lemma size_ok_SetMaxSize_evict: "size_ok dt \<Longrightarrow> size_ok (SetMaxSize_evict dt)"
proof (induction dt rule: SetMaxSize_evict.induct)
  case (1 dt)
  show ?case
  proof (cases "size_dt dt > maxSize dt \<and> entries dt \<noteq> []")
    case True
    with 1 show ?thesis by (subst SetMaxSize_evict.simps) (simp add: size_ok_evictOldest)
  next
    case False
    with 1 show ?thesis by (subst SetMaxSize_evict.simps) auto
  qed
qed

lemma size_ok_SetMaxSize: "size_ok dt \<Longrightarrow> size_ok (SetMaxSize dt m)"
  unfolding SetMaxSize_def by (rule size_ok_SetMaxSize_evict) (simp add: size_ok_def)

lemma size_ok_apply_op: "size_ok dt \<Longrightarrow> size_ok (apply_op dt op)"
  by (cases op) (simp_all add: size_ok_Add size_ok_SetMaxSize)

lemma size_ok_New: "size_ok (NewDynamicTable m)"
  by (simp add: size_ok_def NewDynamicTable_def)

lemma size_ok_foldl: "size_ok dt \<Longrightarrow> size_ok (foldl apply_op dt ops)"
  by (induction ops arbitrary: dt) (simp_all add: size_ok_apply_op)

lemma sum_list_HeaderField_Size:
  "sum_list (map HeaderField_Size es) = of_nat (exact_size es)"
  by (induction es) (simp_all add: exact_size_def HeaderField_Size_def)

lemma size_ok_exact:
  assumes "size_ok dt" and "exact_size (entries dt) < 2 ^ 32"
  shows "unat (size_dt dt) = exact_size (entries dt)"
proof -
  from assms(1) have "size_dt dt = of_nat (exact_size (entries dt))"
    by (simp add: size_ok_def sum_list_HeaderField_Size)
  with assms(2) show ?thesis by (simp add: unat_of_nat)
qed

text \<open>
  \<^bold>\<open>C9.\<close> The \<^verbatim>\<open>size\<close> field of a dynamic table equals the sum of the sizes
  \<open>len(name) + len(value) + 32\<close> of the entries it holds: in a new table, after each single
  \<^verbatim>\<open>Add\<close>, \<^verbatim>\<open>Get\<close>, \<^verbatim>\<open>FindExact\<close>, \<^verbatim>\<open>FindName\<close> or \<^verbatim>\<open>SetMaxSize\<close> on a table where it
  holds, and so after every sequence of them on a new table. The equality is that of the
  \<^verbatim>\<open>uint32\<close> field with the \<^verbatim>\<open>uint32\<close> sum of \<^verbatim>\<open>HeaderField.Size()\<close>; whenever the sum of
  the lengths itself is below \<open>2^32\<close>, the field is that number.
\<close>

theorem dynamic_table_size_invariant:
  "size_ok (NewDynamicTable m)
   \<and> (size_ok dt \<longrightarrow> size_ok (apply_op dt op))
   \<and> size_ok (foldl apply_op (NewDynamicTable m) ops)
   \<and> (exact_size (entries (foldl apply_op (NewDynamicTable m) ops)) < 2 ^ 32 \<longrightarrow>
        unat (size_dt (foldl apply_op (NewDynamicTable m) ops))
          = exact_size (entries (foldl apply_op (NewDynamicTable m) ops)))"
  by (simp add: size_ok_New size_ok_apply_op size_ok_foldl size_ok_exact)

theorem dynamic_table_size_invariant_witness:
  "size_ok \<lparr>entries = [\<lparr>Name = ''a'', Value = ''b''\<rparr>], size_dt = 34, maxSize = 64\<rparr>
   \<and> apply_op \<lparr>entries = [\<lparr>Name = ''a'', Value = ''b''\<rparr>], size_dt = 34, maxSize = 64\<rparr> (OpAdd ''xx'' ''yyyyy'')
      = \<lparr>entries = [\<lparr>Name = ''xx'', Value = ''yyyyy''\<rparr>], size_dt = 39, maxSize = 64\<rparr>
   \<and> size_ok \<lparr>entries = [\<lparr>Name = ''xx'', Value = ''yyyyy''\<rparr>], size_dt = 39, maxSize = 64\<rparr>
   \<and> foldl apply_op (NewDynamicTable 64) [OpAdd ''a'' ''b'', OpGet 0, OpAdd ''xx'' ''yyyyy'', OpFindName ''xx'']
      = \<lparr>entries = [\<lparr>Name = ''xx'', Value = ''yyyyy''\<rparr>], size_dt = 39, maxSize = 64\<rparr>
   \<and> exact_size [\<lparr>Name = ''xx'', Value = ''yyyyy''\<rparr>] < 2 ^ 32
   \<and> unat (39 :: uint32) = exact_size [\<lparr>Name = ''xx'', Value = ''yyyyy''\<rparr>]"
proof -
  let ?dt = "\<lparr>entries = [\<lparr>Name = ''a'', Value = ''b''\<rparr>], size_dt = 34, maxSize = 64\<rparr>"
  let ?ops = "[OpAdd ''a'' ''b'', OpGet 0, OpAdd ''xx'' ''yyyyy'', OpFindName ''xx'']"
  have ok: "size_ok ?dt" by (simp add: size_ok_def HeaderField_Size_def)
  have step: "apply_op ?dt (OpAdd ''xx'' ''yyyyy'')
      = \<lparr>entries = [\<lparr>Name = ''xx'', Value = ''yyyyy''\<rparr>], size_dt = 39, maxSize = 64\<rparr>"
    by code_simp
  have run: "foldl apply_op (NewDynamicTable 64) ?ops
      = \<lparr>entries = [\<lparr>Name = ''xx'', Value = ''yyyyy''\<rparr>], size_dt = 39, maxSize = 64\<rparr>"
    by code_simp
  have small: "exact_size [\<lparr>Name = ''xx'', Value = ''yyyyy''\<rparr>] < 2 ^ 32"
    by (simp add: exact_size_def)
  note th = dynamic_table_size_invariant [of 64 ?dt "OpAdd ''xx'' ''yyyyy''" ?ops]
  from th ok have a: "size_ok (apply_op ?dt (OpAdd ''xx'' ''yyyyy''))" by blast
  from th small have b: "unat (39 :: uint32) = exact_size [\<lparr>Name = ''xx'', Value = ''yyyyy''\<rparr>]"
    unfolding run by simp
  from ok step run small a b show ?thesis by simp
qed

text \<open>
  \<^bold>\<open>C8.\<close> When \<^verbatim>\<open>Add\<close> is given a field whose size is greater than the table's
  \<^verbatim>\<open>maxSize\<close>, the table is empty afterwards: no entry, size 0. What was there is removed
  and the new field is not inserted. The size is \<^verbatim>\<open>HeaderField.Size()\<close>, which is
  \<open>len(name) + len(value) + 32\<close> whenever that is below \<open>2^32\<close>.
\<close>

theorem add_oversize_empties_table:
  "(HeaderField_Size \<lparr>Name = name, Value = v\<rparr> > maxSize dt \<longrightarrow>
      entries (Add dt name v) = [] \<and> size_dt (Add dt name v) = 0
      \<and> maxSize (Add dt name v) = maxSize dt)
   \<and> (length name + length v + 32 < 2 ^ 32 \<and> length name + length v + 32 > unat (maxSize dt) \<longrightarrow>
      entries (Add dt name v) = [] \<and> size_dt (Add dt name v) = 0)"
proof (intro conjI impI)
  define n where "n = length name + length v + 32"
  assume "length name + length v + 32 < 2 ^ 32 \<and> length name + length v + 32 > unat (maxSize dt)"
  then have n: "n < 2 ^ 32" "unat (maxSize dt) < n" by (simp_all add: n_def)
  have "HeaderField_Size \<lparr>Name = name, Value = v\<rparr> = of_nat n"
    by (simp only: HeaderField_Size_def n_def HeaderField.simps)
  moreover from n(1) have "unat (of_nat n :: uint32) = n" by (simp add: unat_of_nat)
  ultimately have "unat (HeaderField_Size \<lparr>Name = name, Value = v\<rparr>) > unat (maxSize dt)"
    using n(2) by simp
  then have big: "HeaderField_Size \<lparr>Name = name, Value = v\<rparr> > maxSize dt"
    by (simp add: word_less_nat_alt)
  then show "entries (Add dt name v) = []" by (simp add: Add_def evictAll_def)
  from big show "size_dt (Add dt name v) = 0" by (simp add: Add_def evictAll_def)
qed (simp_all add: Add_def evictAll_def)

theorem add_oversize_empties_table_witness:
  "HeaderField_Size \<lparr>Name = ''a-header-name-of-thirty-three-byt'', Value = ''v''\<rparr> > 64
   \<and> length ''a-header-name-of-thirty-three-byt'' + length ''v'' + 32 < (2 :: nat) ^ 32
   \<and> length ''a-header-name-of-thirty-three-byt'' + length ''v'' + 32 > unat (64 :: uint32)
   \<and> entries (Add \<lparr>entries = [\<lparr>Name = ''a'', Value = ''b''\<rparr>], size_dt = 34, maxSize = 64\<rparr>
                  ''a-header-name-of-thirty-three-byt'' ''v'') = []
   \<and> size_dt (Add \<lparr>entries = [\<lparr>Name = ''a'', Value = ''b''\<rparr>], size_dt = 34, maxSize = 64\<rparr>
                  ''a-header-name-of-thirty-three-byt'' ''v'') = 0"
proof -
  let ?dt = "\<lparr>entries = [\<lparr>Name = ''a'', Value = ''b''\<rparr>], size_dt = 34, maxSize = 64\<rparr>"
  have big: "HeaderField_Size \<lparr>Name = ''a-header-name-of-thirty-three-byt'', Value = ''v''\<rparr>
        > maxSize ?dt"
    by (simp add: HeaderField_Size_def)
  have nat_big: "length ''a-header-name-of-thirty-three-byt'' + length ''v'' + 32 < (2 :: nat) ^ 32
     \<and> length ''a-header-name-of-thirty-three-byt'' + length ''v'' + 32 > unat (maxSize ?dt)"
    by simp
  note th = add_oversize_empties_table [where name = "''a-header-name-of-thirty-three-byt''"
      and v = "''v''" and dt = ?dt]
  from th nat_big have "entries (Add ?dt ''a-header-name-of-thirty-three-byt'' ''v'') = []
      \<and> size_dt (Add ?dt ''a-header-name-of-thirty-three-byt'' ''v'') = 0"
    by blast
  with big nat_big show ?thesis by simp
qed

section \<open>Properties of the data sub-header\<close>

lemma bytes_str_str_bytes: "bytes_str (str_bytes s) = s"
  by (induction s) (simp_all add: bytes_str_def str_bytes_def unat_of_nat)

lemma length_str_bytes: "length (str_bytes s) = length s"
  by (simp add: str_bytes_def)

lemma Uint16_PutUint16: "PutUint16 v = [a, b] \<Longrightarrow> Uint16 a b = v"
  unfolding PutUint16_def Uint16_def
  by (auto intro!: bit_word_eqI simp: bit_simps)

lemma unat_of_nat_u16: "n \<le> 65535 \<Longrightarrow> unat (of_nat n :: 16 word) = n"
  by (simp add: unat_of_nat)

lemma and7: "(x :: byte) < 8 \<Longrightarrow> x AND 7 = x"
proof -
  assume "x < 8"
  then have "x < 2 ^ 3" by simp
  then have "x AND mask 3 = x" by (rule less_mask_eq)
  then show ?thesis by (simp add: mask_eq_exp_minus_1)
qed

lemma and7_and8: "((x :: byte) AND 7) AND 8 = 0"
  by (simp add: and.assoc)

lemma dh_flags_Type: "Type h < 8 \<Longrightarrow> dh_flags h AND 0x07 = Type h"
  by (simp add: dh_flags_def Let_def and7 word_ao_dist)

lemma dh_flags_IsLast: "(dh_flags h AND 0x08 \<noteq> 0) = IsLast h"
  by (simp add: dh_flags_def Let_def word_ao_dist and7_and8)

lemma MarshalBinary_nth:
  "MarshalBinary h = dh_flags h # PutUint16 (of_nat (length (StreamID h))) @ PutUint16 (of_nat (length (RequestID h))) @ str_bytes (StreamID h) @ str_bytes (RequestID h)"
  by (simp add: MarshalBinary_def)

lemma UnmarshalBinary_payload:
  assumes ty: "Type h < 8"
    and sl: "length (StreamID h) \<le> 65535"
    and rl: "length (RequestID h) \<le> 65535"
  shows "UnmarshalBinary h0 (MarshalBinary h @ d)
         = (h0\<lparr>Type := Type h, IsLast := IsLast h, StreamID := StreamID h, RequestID := RequestID h\<rparr>, None)"
proof -
  obtain a b where ab: "PutUint16 (of_nat (length (StreamID h))) = [a, b]"
    by (simp add: PutUint16_def)
  obtain c e where ce: "PutUint16 (of_nat (length (RequestID h))) = [c, e]"
    by (simp add: PutUint16_def)
  define p where "p = MarshalBinary h @ d"
  have p: "p = dh_flags h # a # b # c # e # str_bytes (StreamID h) @ str_bytes (RequestID h) @ d"
    by (simp add: p_def MarshalBinary_def ab ce)
  have s16: "unat (Uint16 a b) = length (StreamID h)"
    using Uint16_PutUint16 [OF ab] sl by (simp add: unat_of_nat_u16)
  have r16: "unat (Uint16 c e) = length (RequestID h)"
    using Uint16_PutUint16 [OF ce] rl by (simp add: unat_of_nat_u16)
  have d5: "drop 5 p = str_bytes (StreamID h) @ str_bytes (RequestID h) @ d"
    by (simp add: p)
  have "drop (5 + length (StreamID h)) p = drop (length (StreamID h)) (drop 5 p)"
    by (simp add: add.commute)
  then have d5s: "drop (5 + length (StreamID h)) p = str_bytes (RequestID h) @ d"
    by (simp add: d5 length_str_bytes)
  have nths: "p ! 0 = dh_flags h" "p ! Suc 0 = a" "p ! 2 = b" "p ! 3 = c" "p ! 4 = e"
    by (simp_all add: p)
  have len: "length p = 5 + length (StreamID h) + length (RequestID h) + length d"
    by (simp add: p length_str_bytes)
  show ?thesis
    unfolding p_def [symmetric]
    by (simp add: UnmarshalBinary_def binaryHeaderMinSize_def Let_def nths s16 r16 len d5 d5s
          dh_flags_Type [OF ty] dh_flags_IsLast length_str_bytes bytes_str_str_bytes)
qed

lemma encodeDataPayload_MarshalBinary:
  "encodeDataPayload h d = Inr (MarshalBinary h @ d)"
  by (simp add: encodeDataPayload_def MarshalBinary_def)

lemma length_MarshalBinary: "length (MarshalBinary h) = Size h"
  by (simp add: MarshalBinary_def Size_def binaryHeaderMinSize_def PutUint16_def length_str_bytes)

lemma DecodeDataPayload_encode:
  assumes ty: "Type h < 8"
    and sl: "length (StreamID h) \<le> 65535"
    and rl: "length (RequestID h) \<le> 65535"
  shows "DecodeDataPayload (MarshalBinary h @ d) = Inr (h, d)"
proof -
  let ?z = "\<lparr>Type = 0, IsLast = False, StreamID = [], RequestID = []\<rparr>"
  have u: "UnmarshalBinary ?z (MarshalBinary h @ d) = (h, None)"
    using UnmarshalBinary_payload [OF ty sl rl, of ?z d] by simp
  have len: "\<not> length (MarshalBinary h @ d) < binaryHeaderMinSize"
    by (simp add: length_MarshalBinary Size_def)
  have drop: "drop (Size h) (MarshalBinary h @ d) = d"
    by (simp add: length_MarshalBinary [symmetric])
  show ?thesis
    unfolding DecodeDataPayload_def using len
    by (simp add: u drop length_MarshalBinary)
qed


text \<open>
  \<^bold>\<open>C7.\<close> For every header whose \<^verbatim>\<open>Type\<close> fits in 3 bits and whose \<^verbatim>\<open>StreamID\<close> and
  \<^verbatim>\<open>RequestID\<close> have at most 65535 bytes, and every data \<open>d\<close>, \<^verbatim>\<open>encodeDataPayload\<close>
  succeeds and \<^verbatim>\<open>DecodeDataPayload\<close> of its payload returns exactly \<open>(h, d)\<close>. For the
  header \<open>{http_body_chunk, IsLast, "s1", "r"}\<close> with data \<open>"abc"\<close> the payload has 11 bytes
  and decodes to the same values.
\<close>

theorem data_payload_roundtrip:
  "(Type h < 8 \<and> length (StreamID h) \<le> 65535 \<and> length (RequestID h) \<le> 65535 \<longrightarrow>
      (\<exists>p. encodeDataPayload h d = Inr p \<and> DecodeDataPayload p = Inr (h, d)))
   \<and> (\<exists>p. encodeDataPayload example_header (str_bytes ''abc'') = Inr p
          \<and> length p = 11
          \<and> DecodeDataPayload p = Inr (example_header, str_bytes ''abc''))"
proof (intro conjI impI)
  assume "Type h < 8 \<and> length (StreamID h) \<le> 65535 \<and> length (RequestID h) \<le> 65535"
  then show "\<exists>p. encodeDataPayload h d = Inr p \<and> DecodeDataPayload p = Inr (h, d)"
    by (simp add: encodeDataPayload_MarshalBinary DecodeDataPayload_encode)
next
  have ty: "Type example_header < 8"
    by (simp add: example_header_def DataTypeHTTPBodyChunk_def)
  have sl: "length (StreamID example_header) \<le> 65535" by (simp add: example_header_def)
  have rl: "length (RequestID example_header) \<le> 65535" by (simp add: example_header_def)
  have "length (MarshalBinary example_header @ str_bytes ''abc'') = 11"
    by (simp add: length_MarshalBinary Size_def binaryHeaderMinSize_def example_header_def length_str_bytes)
  then show "\<exists>p. encodeDataPayload example_header (str_bytes ''abc'') = Inr p
          \<and> length p = 11
          \<and> DecodeDataPayload p = Inr (example_header, str_bytes ''abc'')"
    by (simp add: encodeDataPayload_MarshalBinary DecodeDataPayload_encode [OF ty sl rl])
qed

theorem data_payload_roundtrip_witness:
  "Type \<lparr>Type = DataTypeClose, IsLast = False, StreamID = ''stream-7'', RequestID = ''''\<rparr> < 8
   \<and> encodeDataPayload \<lparr>Type = DataTypeClose, IsLast = False, StreamID = ''stream-7'', RequestID = ''''\<rparr> [1, 2]
       = Inr [2, 0, 8, 0, 0, 115, 116, 114, 101, 97, 109, 45, 55, 1, 2]
   \<and> DecodeDataPayload [2, 0, 8, 0, 0, 115, 116, 114, 101, 97, 109, 45, 55, 1, 2]
       = Inr (\<lparr>Type = DataTypeClose, IsLast = False, StreamID = ''stream-7'', RequestID = ''''\<rparr>, [1, 2])"
proof -
  let ?h = "\<lparr>Type = DataTypeClose, IsLast = False, StreamID = ''stream-7'', RequestID = ''''\<rparr>"
  have pre: "Type ?h < 8 \<and> length (StreamID ?h) \<le> 65535 \<and> length (RequestID ?h) \<le> 65535"
    by (simp add: DataTypeClose_def)
  have enc: "encodeDataPayload ?h [1, 2] = Inr [2, 0, 8, 0, 0, 115, 116, 114, 101, 97, 109, 45, 55, 1, 2]"
    by code_simp
  from data_payload_roundtrip [of ?h "[1, 2]"] pre
  obtain p where "encodeDataPayload ?h [1, 2] = Inr p" and "DecodeDataPayload p = Inr (?h, [1, 2])"
    by blast
  with enc pre show ?thesis by simp
qed

text \<open>
  \<^bold>\<open>C10.\<close> \<^verbatim>\<open>UnmarshalBinary\<close> is not atomic on failure. On at least 5 bytes whose
  declared identifier lengths exceed the bytes that follow, it returns the length-mismatch
  error, and the receiver has its \<^verbatim>\<open>Type\<close> and \<^verbatim>\<open>IsLast\<close> overwritten from the flags byte
  while \<^verbatim>\<open>StreamID\<close> and \<^verbatim>\<open>RequestID\<close> keep their earlier values.
\<close>

theorem unmarshal_not_atomic:
  "binaryHeaderMinSize \<le> length data \<Longrightarrow>
   length data < binaryHeaderMinSize + unat (Uint16 (data ! 1) (data ! 2)) + unat (Uint16 (data ! 3) (data ! 4)) \<Longrightarrow>
   UnmarshalBinary h data =
     (h\<lparr>Type := data ! 0 AND 0x07, IsLast := (data ! 0 AND 0x08 \<noteq> 0)\<rparr>, Some HeaderLengthMismatch)
   \<and> StreamID (fst (UnmarshalBinary h data)) = StreamID h
   \<and> RequestID (fst (UnmarshalBinary h data)) = RequestID h"
  by (simp add: UnmarshalBinary_def Let_def)

theorem unmarshal_not_atomic_witness:
  "binaryHeaderMinSize \<le> length [0x0E, 0, 9, 0, 0 :: byte]
   \<and> length [0x0E, 0, 9, 0, 0 :: byte] < binaryHeaderMinSize + unat (Uint16 0 9) + unat (Uint16 0 0)
   \<and> UnmarshalBinary \<lparr>Type = DataTypeData, IsLast = False, StreamID = ''old'', RequestID = ''req''\<rparr> [0x0E, 0, 9, 0, 0]
      = (\<lparr>Type = DataTypeHTTPBodyChunk, IsLast = True, StreamID = ''old'', RequestID = ''req''\<rparr>, Some HeaderLengthMismatch)"
proof -
  let ?d = "[0x0E, 0, 9, 0, 0 :: byte]"
  let ?h = "\<lparr>Type = DataTypeData, IsLast = False, StreamID = ''old'', RequestID = ''req''\<rparr>"
  have a: "binaryHeaderMinSize \<le> length ?d" by (simp add: binaryHeaderMinSize_def)
  have b: "length ?d < binaryHeaderMinSize + unat (Uint16 (?d ! 1) (?d ! 2)) + unat (Uint16 (?d ! 3) (?d ! 4))"
    by (simp add: binaryHeaderMinSize_def Uint16_def)
  from unmarshal_not_atomic [OF a b, of ?h] a b show ?thesis
    by (simp add: DataTypeHTTPBodyChunk_def DataTypeData_def)
qed

section \<open>Properties of the HPACK integer and string coding\<close>

lemma b7f: "(0x7f :: byte) = mask 7" by (simp add: mask_eq_exp_minus_1)
lemma w128: "(128 :: uint32) = 2 ^ 7" by simp

lemma bit_0x80: "bit (0x80 :: byte) n \<longleftrightarrow> n = 7"
proof -
  have "bit (2 ^ 7 :: byte) n \<longleftrightarrow> n = 7"
    by (simp only: bit_exp_iff possible_bit_word) auto
  then show ?thesis by simp
qed

lemma bit_128_int: "bit (128 :: int) n \<longleftrightarrow> n = 7"
proof -
  have "bit (2 ^ 7 :: int) n \<longleftrightarrow> n = 7"
    by (simp only: bit_exp_iff) auto
  then show ?thesis by simp
qed

lemma lt128_take_bit: "(v :: uint32) < 128 \<Longrightarrow> take_bit 7 v = v"
  unfolding w128 by (simp add: less_mask_eq take_bit_eq_mask)

lemma mod128_take_bit: "(v :: uint32) mod 128 = take_bit 7 v"
  unfolding w128 by (simp add: take_bit_eq_mod)

lemma last_byte_flag: "(v :: uint32) < 128 \<Longrightarrow> (ucast v :: byte) AND 0x80 = 0"
proof -
  assume "v < 128"
  then have v: "v = take_bit 7 v" by (simp add: lt128_take_bit)
  show ?thesis
    by (subst v) (auto intro!: bit_word_eqI simp: bit_simps bit_0x80 bit_128_int)
qed

lemma last_byte_value: "(v :: uint32) < 128 \<Longrightarrow> ucast ((ucast v :: byte) AND 0x7f) = v"
proof -
  assume "v < 128"
  then have v: "take_bit 7 v = v" by (simp add: lt128_take_bit)
  have "ucast ((ucast v :: byte) AND mask 7) = take_bit 7 v"
    by (auto intro!: bit_word_eqI simp: bit_simps)
  then show ?thesis by (simp add: b7f v)
qed

lemma cont_byte_flag: "((ucast ((v :: uint32) mod 128) :: byte) OR 0x80) AND 0x80 \<noteq> 0"
proof
  assume z: "((ucast (v mod 128) :: byte) OR 0x80) AND 0x80 = 0"
  have "bit (((ucast (v mod 128) :: byte) OR 0x80) AND 0x80) 7"
    by (simp add: bit_simps bit_0x80 bit_128_int)
  with z show False by simp
qed

lemma cont_byte_value: "ucast (((ucast ((v :: uint32) mod 128) :: byte) OR 0x80) AND 0x7f) = v mod 128"
proof -
  have "ucast (((ucast (take_bit 7 v) :: byte) OR 0x80) AND mask 7) = take_bit 7 v"
    by (auto intro!: bit_word_eqI simp: bit_simps bit_0x80 bit_128_int)
  then show ?thesis by (simp add: b7f mod128_take_bit)
qed

lemma push_bit_split128:
  "push_bit n ((v :: uint32) mod 128) + push_bit (n + 7) (v div 128) = push_bit n v"
proof -
  have "push_bit (n + 7) (v div 128) = push_bit n (v div 128 * 128)"
    by (simp add: push_bit_eq_mult power_add mult.assoc mult.commute)
  then have "push_bit n (v mod 128) + push_bit (n + 7) (v div 128)
        = push_bit n (v mod 128 + v div 128 * 128)"
    by (simp add: push_bit_add)
  moreover have "v mod 128 + v div 128 * 128 = v"
    by (rule mod_div_mult_eq)
  ultimately show ?thesis by simp
qed

lemma div128_bound:
  "unat (v :: uint32) < 2 ^ (k + 7) \<Longrightarrow> unat (v div 128) < 2 ^ k"
proof -
  assume "unat v < 2 ^ (k + 7)"
  then have "unat v < 2 ^ k * 128" by (simp add: power_add)
  then have "unat v div 128 < 2 ^ k" by (simp add: less_mult_imp_div_less)
  then show ?thesis by (simp add: unat_div)
qed

lemma integer_loop_roundtrip:
  "m \<in> {0, 7, 14, 21, 28} \<Longrightarrow> unat v < 2 ^ (32 - unat m) \<Longrightarrow>
     \<exists>bs. writeInteger_loop buf v = buf @ bs
        \<and> (\<forall>acc rest. readInteger_loop (bs @ rest) acc m = Inr (acc + push_bit (unat m) v, rest))"
proof (induction buf v arbitrary: m rule: writeInteger_loop.induct)
  case (1 buf v)
  show ?case
  proof (cases "v \<ge> 128")
    case False
    then have lt: "v < 128" by simp
    have w: "writeInteger_loop buf v = buf @ [ucast v]"
      using False by (subst writeInteger_loop.simps) simp
    have "\<forall>acc rest. readInteger_loop ([ucast v] @ rest) acc m = Inr (acc + push_bit (unat m) v, rest)"
      by (simp add: Let_def last_byte_flag [OF lt] last_byte_value [OF lt])
    with w show ?thesis by blast
  next
    case True
    let ?b = "ucast (v mod 128) OR 0x80 :: byte"
    from True have big: "128 \<le> unat v" by (simp add: word_le_nat_alt)
    have m_cases: "m \<in> {0, 7, 14, 21}"
    proof -
      from big "1.prems" have "m \<noteq> 28" by auto
      with "1.prems" show ?thesis by auto
    qed
    have m7: "m + 7 \<in> {0, 7, 14, 21, 28}" using m_cases by auto
    have no_ovf: "\<not> m + 7 > 28" using m_cases by auto
    have um7: "unat (m + 7) = unat m + 7" using m_cases by auto
    have "unat v < 2 ^ ((32 - unat (m + 7)) + 7)"
      using m_cases "1.prems"(2) by (auto simp: um7)
    then have bound: "unat (v div 128) < 2 ^ (32 - unat (m + 7))" by (rule div128_bound)
    from "1.IH" [OF True m7 bound]
    obtain bs where w': "writeInteger_loop (buf @ [?b]) (v div 128) = (buf @ [?b]) @ bs"
      and r': "\<And>acc rest. readInteger_loop (bs @ rest) acc (m + 7)
                 = Inr (acc + push_bit (unat (m + 7)) (v div 128), rest)"
      by blast
    have w: "writeInteger_loop buf v = buf @ (?b # bs)"
      using True w' by (subst writeInteger_loop.simps) simp
    have "readInteger_loop ((?b # bs) @ rest) acc m = Inr (acc + push_bit (unat m) v, rest)" for acc rest
    proof -
      have "readInteger_loop ((?b # bs) @ rest) acc m
            = readInteger_loop (bs @ rest) (acc + push_bit (unat m) (v mod 128)) (m + 7)"
        using no_ovf by (simp add: Let_def cont_byte_flag cont_byte_value)
      also have "\<dots> = Inr (acc + push_bit (unat m) (v mod 128) + push_bit (unat m + 7) (v div 128), rest)"
        by (simp add: r' um7)
      also have "acc + push_bit (unat m) (v mod 128) + push_bit (unat m + 7) (v div 128)
                 = acc + push_bit (unat m) v"
        by (simp add: add.assoc push_bit_split128)
      finally show ?thesis .
    qed
    with w show ?thesis by blast
  qed
qed


lemma maxPrefix_mask: "(push_bit n 1 - 1 :: uint32) = mask n"
  by (simp add: mask_eq_exp_minus_1 push_bit_of_1)

lemma ucast_mask_byte: "n \<le> 8 \<Longrightarrow> (ucast (mask n :: uint32) :: byte) = mask n"
  by (auto intro!: bit_word_eqI simp: bit_simps)

lemma ucast_byte_mask: "n \<le> 8 \<Longrightarrow> (ucast (mask n :: byte) :: uint32) = mask n"
  by (auto intro!: bit_word_eqI simp: bit_simps)

lemma prefix_byte_value:
  assumes n: "n \<le> 8" and p: "prefix AND (mask n :: byte) = 0"
  shows "(ucast ((prefix OR ucast (v :: uint32)) AND mask n) :: uint32) = take_bit n v"
proof -
  have "(prefix OR ucast v) AND (mask n :: byte) = ucast v AND mask n"
    by (simp add: word_ao_dist p)
  moreover have "(ucast ((ucast v :: byte) AND mask n) :: uint32) = take_bit n v"
    using n by (auto intro!: bit_word_eqI simp: bit_simps)
  ultimately show ?thesis by simp
qed

lemma lt_mask_take_bit: "(v :: uint32) < mask n \<Longrightarrow> take_bit n v = v"
proof -
  assume "v < mask n"
  then have "uint v < uint (mask n :: uint32)" by (simp add: word_less_def)
  also have "\<dots> = 2 ^ min 32 n - 1" by (simp only: uint_mask_eq) (simp add: mask_eq_exp_minus_1)
  also have "\<dots> < (2 :: int) ^ min 32 n" by simp
  also have "\<dots> \<le> 2 ^ n" by (rule power_increasing) simp_all
  finally have "uint v < 2 ^ n" .
  then have "v AND mask n = v" by (simp add: mask_eq_iff)
  then show ?thesis by (simp add: take_bit_eq_mask)
qed

lemma writeInteger_mask:
  "1 \<le> N \<Longrightarrow> N \<le> 8 \<Longrightarrow>
   writeInteger buf v N prefix =
     (if v < mask (nat N) then Inr (buf @ [prefix OR ucast v])
      else Inr (writeInteger_loop (buf @ [prefix OR ucast (mask (nat N) :: uint32)]) (v - mask (nat N))))"
  unfolding writeInteger_def maxPrefix_mask by (simp add: Let_def)

lemma readInteger_mask:
  "1 \<le> N \<Longrightarrow> N \<le> 8 \<Longrightarrow>
   readInteger (b # rest) N =
     (if ucast (b AND mask (nat N)) < (mask (nat N) :: uint32) then Inr (ucast (b AND mask (nat N)), rest)
      else readInteger_loop rest (ucast (b AND mask (nat N))) 0)"
proof -
  assume N: "1 \<le> N" "N \<le> 8"
  then have "nat N \<le> 8" by simp
  then have m: "(ucast (mask (nat N) :: uint32) :: byte) = mask (nat N)" by (rule ucast_mask_byte)
  from N show ?thesis
    unfolding readInteger_def maxPrefix_mask by (simp add: Let_def m)
qed

text \<open>
  \<^bold>\<open>C6.\<close> For every \<^verbatim>\<open>uint32\<close> value \<open>v\<close> and every prefix width \<open>N\<close> from 1 to 8,
  \<^verbatim>\<open>readInteger\<close> applied to the bytes \<^verbatim>\<open>writeInteger\<close> appends returns \<open>v\<close> and leaves
  the input that follows. The flag bits \<^verbatim>\<open>prefix\<close> passed to the writer lie above the
  \<open>N\<close> prefix bits, as in every call of the encoder. With width 5, 10 is the byte \<open>0A\<close>
  and 1337 the bytes \<open>1F 9A 0A\<close>, and reading gives 10 and 1337 back.
\<close>

theorem integer_roundtrip:
  "(1 \<le> N \<and> N \<le> 8 \<and> prefix AND ucast (push_bit (nat N) 1 - 1 :: uint32) = 0 \<longrightarrow>
      (\<exists>bs. writeInteger buf v N prefix = Inr (buf @ bs)
           \<and> readInteger (bs @ rest) N = Inr (v, rest)))
   \<and> writeInteger [] 10 5 0 = Inr [0x0A]
   \<and> writeInteger [] 1337 5 0 = Inr [0x1F, 0x9A, 0x0A]
   \<and> readInteger [0x0A] 5 = Inr (10, [])
   \<and> readInteger [0x1F, 0x9A, 0x0A] 5 = Inr (1337, [])"
proof (intro conjI impI)
  assume h: "1 \<le> N \<and> N \<le> 8 \<and> prefix AND ucast (push_bit (nat N) 1 - 1 :: uint32) = 0"
  define n where "n = nat N"
  from h have N1: "1 \<le> N" and N8: "N \<le> 8" by simp_all
  from N8 have n8: "n \<le> 8" by (simp add: n_def)
  from h have "prefix AND ucast (push_bit (nat N) 1 - 1 :: uint32) = 0" by blast
  then have p0: "prefix AND (mask n :: byte) = 0"
    unfolding maxPrefix_mask n_def [symmetric] ucast_mask_byte [OF n8] .
  note W = writeInteger_mask [OF N1 N8, folded n_def]
  note R = readInteger_mask [OF N1 N8, folded n_def]
  show "\<exists>bs. writeInteger buf v N prefix = Inr (buf @ bs)
           \<and> readInteger (bs @ rest) N = Inr (v, rest)"
  proof (cases "v < mask n")
    case True
    have w: "writeInteger buf v N prefix = Inr (buf @ [prefix OR ucast v])"
      using True by (simp add: W)
    have val: "(ucast ((prefix OR ucast v) AND mask n) :: uint32) = v"
      by (simp add: prefix_byte_value [OF n8 p0] lt_mask_take_bit [OF True])
    have "readInteger ([prefix OR ucast v] @ rest) N = Inr (v, rest)"
      using True by (simp add: R val)
    with w show ?thesis by blast
  next
    case False
    let ?b = "prefix OR ucast (mask n :: uint32) :: byte"
    have w0: "writeInteger buf v N prefix = Inr (writeInteger_loop (buf @ [?b]) (v - mask n))"
      using False by (simp add: W)
    have "unat (v - mask n) < 2 ^ (32 - unat (0 :: uint32))"
      using unsigned_less [of "v - mask n", where 'a = nat] by simp
    with integer_loop_roundtrip [of 0 "v - mask n" "buf @ [?b]"]
    obtain bs where w': "writeInteger_loop (buf @ [?b]) (v - mask n) = (buf @ [?b]) @ bs"
      and r': "\<And>acc rest. readInteger_loop (bs @ rest) acc 0 = Inr (acc + push_bit (unat (0 :: uint32)) (v - mask n), rest)"
      by blast
    have first: "(ucast (?b AND mask n) :: uint32) = mask n"
    proof -
      have "?b AND mask n = (mask n :: byte)"
        by (simp add: word_ao_dist p0 ucast_mask_byte [OF n8])
      then show ?thesis by (simp add: ucast_byte_mask [OF n8])
    qed
    have "readInteger ((?b # bs) @ rest) N = Inr (v, rest)"
      by (simp add: R first r')
    with w0 w' show ?thesis by auto
  qed
qed (simp_all add: writeInteger_def readInteger_def writeInteger_loop.simps)

theorem integer_roundtrip_witness:
  "(1::int) \<le> 6 \<and> (6::int) \<le> 8 \<and> (0x40 :: byte) AND ucast (push_bit (nat 6) 1 - 1 :: uint32) = 0
   \<and> writeInteger [] 4294967295 6 0x40 = Inr [0x7F, 0xC0, 0xFF, 0xFF, 0xFF, 0x0F]
   \<and> readInteger [0x7F, 0xC0, 0xFF, 0xFF, 0xFF, 0x0F, 0x2A] 6 = Inr (4294967295, [0x2A])"
proof -
  have pre: "(1::int) \<le> 6 \<and> (6::int) \<le> 8 \<and> (0x40 :: byte) AND ucast (push_bit (nat 6) 1 - 1 :: uint32) = 0"
    by simp
  have enc: "writeInteger [] 4294967295 6 0x40 = Inr [0x7F, 0xC0, 0xFF, 0xFF, 0xFF, 0x0F]"
    by (simp add: writeInteger_def writeInteger_loop.simps)
  from integer_roundtrip [of 6 "0x40" "[]" 4294967295 "[0x2A]"] pre
  obtain bs where "writeInteger [] 4294967295 6 0x40 = Inr ([] @ bs)"
    and "readInteger (bs @ [0x2A]) 6 = Inr (4294967295, [0x2A])"
    by blast
  with enc pre show ?thesis by simp
qed

text \<open>
  \<^bold>\<open>C4.\<close> The claim: every string whose first byte has the Huffman bit set is refused
  by \<^verbatim>\<open>readString\<close>, whatever its declared length, zero included. The code tests
  \<^verbatim>\<open>length == 0\<close> and returns the empty string before it looks at the Huffman flag: the
  byte \<open>80\<close> (Huffman bit set, length 0) is read as the empty string, without error.
\<close>

theorem huffman_flag_zero_length_accepted:
  "readString (0x80 # rest) = Inr ([], rest)"
  by (simp add: readString_def readInteger_def)

text \<open>The flag is honoured for every other length: a flagged string is never read as a
  non-empty string, and a flagged string of non-zero length is an error.\<close>

lemma huffman_flag_accepts_only_empty:
  "b AND 0x80 \<noteq> 0 \<Longrightarrow> readString (b # buf) = Inr (s, rest) \<Longrightarrow> s = []"
  by (auto simp: readString_def Let_def split: sum.splits if_splits)

lemma huffman_flag_nonzero_length_rejected:
  "b AND 0x80 \<noteq> 0 \<Longrightarrow> readInteger (b # buf) 7 = Inr (len, rest) \<Longrightarrow> len \<noteq> 0 \<Longrightarrow>
     \<exists>e. readString (b # buf) = Inl e"
  by (auto simp: readString_def Let_def split: sum.splits if_splits)


lemma unat_m7: "unat (m :: uint32) \<le> 28 \<Longrightarrow> unat (m + 7) = unat m + 7"
  by (simp add: unat_word_ariths)


lemma readInteger_loop_accepts:
  "\<forall>c \<in> set cs. c AND 0x80 \<noteq> 0 \<Longrightarrow> l AND 0x80 = 0 \<Longrightarrow> unat m + 7 * length cs \<le> 28 \<Longrightarrow>
     \<exists>v. readInteger_loop (cs @ l # rest) acc m = Inr (v, rest)"
proof (induction cs arbitrary: acc m)
  case Nil
  then show ?case by (simp add: Let_def)
next
  case (Cons c cs)
  from Cons.prems have flag: "c AND 0x80 \<noteq> 0" by simp
  from Cons.prems have m21: "unat m \<le> 21" by simp
  then have u: "unat (m + 7) = unat m + 7" by (simp add: unat_m7)
  then have no: "\<not> m + 7 > 28" using m21 by (simp add: word_less_nat_alt)
  have "unat (m + 7) + 7 * length cs \<le> 28" using Cons.prems by (simp add: u)
  with Cons.IH [of "m + 7"] Cons.prems
  obtain v where "readInteger_loop (cs @ l # rest) (acc + push_bit (unat m) (ucast (c AND 0x7f))) (m + 7) = Inr (v, rest)"
    by auto
  with flag no show ?case by (simp add: Let_def)
qed



section \<open>Encoder and decoder in sequence\<close>

text \<open>Where the two sides part: when only the name of a field is found, in the static or
  in the dynamic table, \<^verbatim>\<open>encodeHeaderField\<close> leaves the encoder as it is, while every
  literal with incremental indexing that the decoder reads is added to the decoder's
  table.\<close>

lemma encoder_name_reference_adds_nothing:
  "StaticTable_FindExact GetStaticTable (ToLower name) v = (i, False) \<Longrightarrow>
   StaticTable_FindName GetStaticTable (ToLower name) = (j, True) \<Longrightarrow>
     fst (encodeHeaderField e buf name v) = e"
  by (simp add: encodeHeaderField_def Let_def)

lemma encoder_dynamic_name_reference_adds_nothing:
  "StaticTable_FindExact GetStaticTable (ToLower name) v = (i, False) \<Longrightarrow>
   StaticTable_FindName GetStaticTable (ToLower name) = (j, False) \<Longrightarrow>
   FindExact (dynamicTable_e e) (ToLower name) v = (k, False) \<Longrightarrow>
   FindName (dynamicTable_e e) (ToLower name) = (l, True) \<Longrightarrow>
     fst (encodeHeaderField e buf name v) = e"
  by (simp add: encodeHeaderField_def Let_def)

lemma decoder_literal_always_adds:
  "decodeLiteralWithIndexing d buf = (d', Inr (name, v, rest)) \<Longrightarrow>
     dynamicTable_d d' = Add (dynamicTable_d d) name v"
  by (auto simp: decodeLiteralWithIndexing_def split: sum.splits prod.splits)

text \<open>
  \<^bold>\<open>C1.\<close> The claim: what a paired decoder decodes is what the encoder was given, the two
  dynamic tables staying in step. \<^verbatim>\<open>encodeHeaderField\<close> writes a literal with incremental
  indexing whenever only the name is found (in the static or in the dynamic table), and
  adds nothing to its own table there; \<^verbatim>\<open>decodeLiteralWithIndexing\<close> adds every such field.
  From then on the decoder's table is one entry ahead, and a dynamic index the encoder
  sends names another entry on the decoder's side. On a new encoder and a new decoder, the
  header \<open>X-A: 1, 2, 1\<close> is encoded as a literal with a new name, a literal with the name
  at index 62, and the index 62; the decoder returns \<open>x-a: 1, 2, 2\<close>. The encoder's table
  ends with one entry, the decoder's with two.
\<close>

theorem encode_decode_diverges:
  "Encode (NewEncoder 4096) (Some repeated_header)
     = (\<lparr>dynamicTable_e = \<lparr>entries = [\<lparr>Name = ''x-a'', Value = ''1''\<rparr>], size_dt = 36, maxSize = 4096\<rparr>,
          maxTableSize_e = 4096\<rparr>,
        Inr [0x40, 3, 0x78, 0x2D, 0x61, 1, 0x31, 0x7E, 1, 0x32, 0xBE])
   \<and> Decode (NewDecoder 4096) [0x40, 3, 0x78, 0x2D, 0x61, 1, 0x31, 0x7E, 1, 0x32, 0xBE]
     = (\<lparr>dynamicTable_d = \<lparr>entries = [\<lparr>Name = ''x-a'', Value = ''2''\<rparr>, \<lparr>Name = ''x-a'', Value = ''1''\<rparr>],
                              size_dt = 72, maxSize = 4096\<rparr>,
          maxTableSize_d = 4096\<rparr>,
        Inr [(''x-a'', ''1''), (''x-a'', ''2''), (''x-a'', ''2'')])"
  by code_simp

section \<open>Properties of the frame writer: the backlog counters\<close>


lemma accounted_fields:
  "queuedFrames w' = queuedFrames w \<Longrightarrow> queuedBytes w' = queuedBytes w \<Longrightarrow>
   frame_queuedBytes w' = frame_queuedBytes w \<Longrightarrow> FrameHeaderSize w' = FrameHeaderSize w \<Longrightarrow>
   accounted w' fs = accounted w fs"
proof -
  assume a: "queuedFrames w' = queuedFrames w" "queuedBytes w' = queuedBytes w"
    "frame_queuedBytes w' = frame_queuedBytes w" "FrameHeaderSize w' = FrameHeaderSize w"
  then show ?thesis by (simp add: accounted_def)
qed






lemma unmarkQueued_keeps [simp]:
  "queue (unmarkQueued w f) = queue w"
  "controlQueue (unmarkQueued w f) = controlQueue w"
  "batch (unmarkQueued w f) = batch w"
  "pending (unmarkQueued w f) = pending w"
  "pending_control (unmarkQueued w f) = pending_control w"
  "FrameHeaderSize (unmarkQueued w f) = FrameHeaderSize w"
  "errOnce (unmarkQueued w f) = errOnce w"
  "closed (unmarkQueued w f) = closed w"
  "writeErr (unmarkQueued w f) = writeErr w"
  "onWriteError_calls (unmarkQueued w f) = onWriteError_calls w"
  "onWriteErrorSet (unmarkQueued w f) = onWriteErrorSet w"
  "conn (unmarkQueued w f) = conn w"
  "queues_closed (unmarkQueued w f) = queues_closed w"
  "done_closed (unmarkQueued w f) = done_closed w"
  "loop_exited (unmarkQueued w f) = loop_exited w"
  by (simp_all add: unmarkQueued_def Let_def)

lemma errOnce_Do_keeps [simp]:
  "queue (errOnce_Do w e) = queue w"
  "controlQueue (errOnce_Do w e) = controlQueue w"
  "batch (errOnce_Do w e) = batch w"
  "pending (errOnce_Do w e) = pending w"
  "pending_control (errOnce_Do w e) = pending_control w"
  "FrameHeaderSize (errOnce_Do w e) = FrameHeaderSize w"
  "queuedFrames (errOnce_Do w e) = queuedFrames w"
  "queuedBytes (errOnce_Do w e) = queuedBytes w"
  "frame_queuedBytes (errOnce_Do w e) = frame_queuedBytes w"
  "conn (errOnce_Do w e) = conn w"
  "onWriteErrorSet (errOnce_Do w e) = onWriteErrorSet w"
  by (simp_all add: errOnce_Do_def)

lemma flushFrameLocked_keeps [simp]:
  "queue (flushFrameLocked w f) = queue w"
  "controlQueue (flushFrameLocked w f) = controlQueue w"
  "batch (flushFrameLocked w f) = batch w"
  "pending (flushFrameLocked w f) = pending w"
  "pending_control (flushFrameLocked w f) = pending_control w"
  "FrameHeaderSize (flushFrameLocked w f) = FrameHeaderSize w"
  "onWriteErrorSet (flushFrameLocked w f) = onWriteErrorSet w"
  by (simp_all add: flushFrameLocked_def split: prod.splits option.splits)

lemma foldl_flushFrameLocked_keeps [simp]:
  "queue (foldl flushFrameLocked w fs) = queue w"
  "controlQueue (foldl flushFrameLocked w fs) = controlQueue w"
  "batch (foldl flushFrameLocked w fs) = batch w"
  "pending (foldl flushFrameLocked w fs) = pending w"
  "pending_control (foldl flushFrameLocked w fs) = pending_control w"
  "FrameHeaderSize (foldl flushFrameLocked w fs) = FrameHeaderSize w"
  by (induction fs arbitrary: w; simp)+

lemma foldl_unmarkQueued_keeps [simp]:
  "queue (foldl unmarkQueued w fs) = queue w"
  "controlQueue (foldl unmarkQueued w fs) = controlQueue w"
  "batch (foldl unmarkQueued w fs) = batch w"
  "pending (foldl unmarkQueued w fs) = pending w"
  "pending_control (foldl unmarkQueued w fs) = pending_control w"
  "FrameHeaderSize (foldl unmarkQueued w fs) = FrameHeaderSize w"
  "errOnce (foldl unmarkQueued w fs) = errOnce w"
  "closed (foldl unmarkQueued w fs) = closed w"
  "writeErr (foldl unmarkQueued w fs) = writeErr w"
  "onWriteError_calls (foldl unmarkQueued w fs) = onWriteError_calls w"
  "conn (foldl unmarkQueued w fs) = conn w"
  "queues_closed (foldl unmarkQueued w fs) = queues_closed w"
  "done_closed (foldl unmarkQueued w fs) = done_closed w"
  "loop_exited (foldl unmarkQueued w fs) = loop_exited w"
  by (induction fs arbitrary: w; simp)+

lemma flushBatchLocked_keeps [simp]:
  "queue (flushBatchLocked w) = queue w"
  "controlQueue (flushBatchLocked w) = controlQueue w"
  "batch (flushBatchLocked w) = []"
  "pending (flushBatchLocked w) = pending w"
  "pending_control (flushBatchLocked w) = pending_control w"
  "FrameHeaderSize (flushBatchLocked w) = FrameHeaderSize w"
  by (simp_all add: flushBatchLocked_def)














lemma counters_ok_field_update:
  assumes "counters_ok w"
    and "held w' = held w"
    and "queuedFrames w' = queuedFrames w" "queuedBytes w' = queuedBytes w"
    and "frame_queuedBytes w' = frame_queuedBytes w" "FrameHeaderSize w' = FrameHeaderSize w"
  shows "counters_ok w'"
  using assms accounted_fields [of w' w "held w"] by (simp add: counters_ok_def)

lemma Close_closed: "closed w \<Longrightarrow> Close w = w"
  by (simp add: Close_def)














lemma counters_ok_setters:
  assumes ok: "counters_ok w"
  shows "counters_ok (EnableHeartbeat w i cb)" "counters_ok (DisableHeartbeat w)"
    "counters_ok (SetWriteErrorHandler w h)" "counters_ok (EnableAdaptiveFlush w n)"
    "counters_ok (DisableAdaptiveFlush w)"
  by (rule counters_ok_field_update [OF ok];
      simp add: held_def EnableHeartbeat_def DisableHeartbeat_def SetWriteErrorHandler_def
                EnableAdaptiveFlush_def DisableAdaptiveFlush_def)+



lemma counters_ok_New:
  "0 < hdr \<Longrightarrow> counters_ok (NewFrameWriterWithConfig c mb mw qs hdr)"
  by (simp add: counters_ok_def accounted_def held_def NewFrameWriterWithConfig_def)

lemma counters_ok_NewFrameWriter:
  "0 < hdr \<Longrightarrow> counters_ok (NewFrameWriter c hdr)"
  unfolding NewFrameWriter_def
  by (intro counters_ok_setters counters_ok_New)

section \<open>Properties of the frame writer: the error latch\<close>

lemma errOnce_Do_done: "errOnce w \<Longrightarrow> errOnce_Do w e = w"
  by (simp add: errOnce_Do_def)

lemma latch_unmarkQueued [simp]: "latch (unmarkQueued w f) = latch w"
  by (simp add: latch_def)

lemma latch_flushFrameLocked: "errOnce w \<Longrightarrow> latch (flushFrameLocked w f) = latch w"
  by (auto simp: flushFrameLocked_def errOnce_Do_def latch_def split: prod.splits option.splits)

lemma latch_foldl_flushFrameLocked:
  "errOnce w \<Longrightarrow> latch (foldl flushFrameLocked w fs) = latch w"
proof (induction fs arbitrary: w)
  case Nil
  then show ?case by simp
next
  case (Cons f fs)
  from Cons.prems have l: "latch (flushFrameLocked w f) = latch w" by (rule latch_flushFrameLocked)
  with Cons.prems have "errOnce (flushFrameLocked w f)" by (simp add: latch_def)
  then have "latch (foldl flushFrameLocked (flushFrameLocked w f) fs) = latch (flushFrameLocked w f)"
    by (rule Cons.IH)
  with l show ?case by simp
qed

lemma latch_flushBatchLocked: "errOnce w \<Longrightarrow> latch (flushBatchLocked w) = latch w"
proof -
  assume e: "errOnce w"
  have "latch ((foldl flushFrameLocked w (batch w))\<lparr>batch := []\<rparr>) = latch (foldl flushFrameLocked w (batch w))"
    by (simp add: latch_def)
  with latch_foldl_flushFrameLocked [OF e, of "batch w"] show ?thesis
    by (simp add: flushBatchLocked_def)
qed

lemma latch_exit: "errOnce w \<Longrightarrow> latch ((flushBatchLocked w)\<lparr>loop_exited := True\<rparr>) = latch w"
proof -
  assume e: "errOnce w"
  have "latch ((flushBatchLocked w)\<lparr>loop_exited := True\<rparr>) = latch (flushBatchLocked w)"
    by (simp add: latch_def)
  with latch_flushBatchLocked [OF e] show ?thesis by simp
qed

lemma enter_closed:
  "closed w \<Longrightarrow> WriteFrameWithCancel_enter w (Some f) cancel pick = (w, Returned (Some (closed_error w)))"
  by (simp add: WriteFrameWithCancel_enter_def)

lemma control_enter_closed:
  "closed w \<Longrightarrow> WriteControl_enter w (Some f) pick = (w, Returned (Some (closed_error w)))"
  by (simp add: WriteControl_enter_def)

lemma latch_wait:
  "WriteFrameWithCancel_wait w f cancel c = Some (w', r) \<Longrightarrow> latch w' = latch w"
  by (cases c; auto simp: WriteFrameWithCancel_wait_def Let_def abandon_def latch_def split: if_splits)

lemma latch_control_wait:
  "WriteControl_wait w f c = Some (w', r) \<Longrightarrow> latch w' = latch w"
  by (cases c; auto simp: WriteControl_wait_def Let_def abandon_def latch_def split: if_splits)

lemma latch_loop_control:
  "errOnce w \<Longrightarrow> loop_control w = Some w' \<Longrightarrow> latch w' = latch w"
proof -
  assume e: "errOnce w" and st: "loop_control w = Some w'"
  show ?thesis
  proof (cases "controlQueue w")
    case Nil
    with st have "w' = (flushBatchLocked w)\<lparr>loop_exited := True\<rparr>"
      by (simp add: loop_control_def split: if_splits)
    with e show ?thesis by (simp add: latch_exit)
  next
    case (Cons f rest)
    with st have w': "w' = flushFrameLocked (w\<lparr>controlQueue := rest\<rparr>) f"
      by (simp add: loop_control_def split: if_splits)
    from e have "errOnce (w\<lparr>controlQueue := rest\<rparr>)" by simp
    then have "latch (flushFrameLocked (w\<lparr>controlQueue := rest\<rparr>) f) = latch (w\<lparr>controlQueue := rest\<rparr>)"
      by (rule latch_flushFrameLocked)
    then show ?thesis unfolding w' by (simp add: latch_def)
  qed
qed

lemma latch_loop_data:
  "errOnce w \<Longrightarrow> loop_data w = Some w' \<Longrightarrow> latch w' = latch w"
proof -
  assume e: "errOnce w" and st: "loop_data w = Some w'"
  show ?thesis
  proof (cases "queue w")
    case Nil
    with st have "w' = (flushBatchLocked w)\<lparr>loop_exited := True\<rparr>"
      by (simp add: loop_data_def split: if_splits)
    with e show ?thesis by (simp add: latch_exit)
  next
    case (Cons f rest)
    let ?w1 = "w\<lparr>queue := rest, batch := batch w @ [f]\<rparr>"
    from st Cons have w': "w' = flushBatchLocked ?w1 \<or> w' = ?w1"
      by (simp add: loop_data_def Let_def split: if_splits)
    from e have "errOnce ?w1" by simp
    then have "latch (flushBatchLocked ?w1) = latch ?w1" by (rule latch_flushBatchLocked)
    moreover have "latch ?w1 = latch w" by (simp add: latch_def)
    ultimately show ?thesis using w' by auto
  qed
qed

lemma latch_step:
  assumes e: "errOnce w" and c: "closed w" and st: "step w ev = Some w'"
  shows "latch w' = latch w"
proof (cases ev)
  case (EvWriteFrame f cancel pick)
  with c st show ?thesis by (simp add: enter_closed)
next
  case (EvWriteFrameWait f cancel cs)
  with st show ?thesis by (auto dest: latch_wait)
next
  case (EvWriteControl f pick)
  with c st show ?thesis by (simp add: control_enter_closed)
next
  case (EvWriteControlWait f cs)
  with st show ?thesis by (auto dest: latch_control_wait)
next
  case EvClose
  with c st show ?thesis by (auto simp: Close_closed split: if_splits)
next
  case EvFlush
  with c st show ?thesis by (auto simp: Flush_def)
next
  case EvLoopControl
  with e st show ?thesis by (auto dest: latch_loop_control)
next
  case EvLoopData
  with e st show ?thesis by (auto dest: latch_loop_data)
next
  case EvLoopTick
  with e st show ?thesis
    by (auto simp: loop_tick_def latch_flushBatchLocked split: if_splits)
next
  case (EvLoopHeartbeat frame)
  with e st show ?thesis
    by (auto simp: loop_heartbeat_def latch_flushFrameLocked split: if_splits option.splits)
next
  case EvLoopHeartbeatControl
  with st show ?thesis by (auto simp: loop_heartbeatControl_def latch_def split: if_splits)
next
  case EvLoopDone
  with e st show ?thesis by (auto simp: loop_done_def latch_exit split: if_splits)
next
  case (EvEnableHeartbeat i cb)
  with st show ?thesis by (auto simp: EnableHeartbeat_def latch_def)
next
  case EvDisableHeartbeat
  with st show ?thesis by (auto simp: DisableHeartbeat_def latch_def)
next
  case (EvSetWriteErrorHandler h)
  with st show ?thesis by (auto simp: SetWriteErrorHandler_def latch_def)
next
  case (EvEnableAdaptiveFlush n)
  with st show ?thesis by (auto simp: EnableAdaptiveFlush_def latch_def)
next
  case EvDisableAdaptiveFlush
  with st show ?thesis by (auto simp: DisableAdaptiveFlush_def latch_def)
qed

lemma latch_steps:
  "errOnce w \<Longrightarrow> closed w \<Longrightarrow> steps w evs = Some w' \<Longrightarrow> latch w' = latch w"
proof (induction evs arbitrary: w)
  case Nil
  then show ?case by simp
next
  case (Cons ev evs)
  from Cons.prems(3) obtain w1 where s: "step w ev = Some w1" and r: "steps w1 evs = Some w'"
    by (auto split: option.splits)
  from Cons.prems(1,2) s have l: "latch w1 = latch w" by (rule latch_step)
  with Cons.prems(1,2) have "errOnce w1" "closed w1" by (simp_all add: latch_def)
  then have "latch w' = latch w1" using r by (rule Cons.IH)
  with l show ?case by simp
qed

lemma first_error_latches:
  assumes "\<not> errOnce w" and "WriteFrame (conn w) f = (c, Some e)"
  shows "latched (flushFrameLocked w f) e"
    and "onWriteError_calls (flushFrameLocked w f)
           = (if onWriteErrorSet w then onWriteError_calls w @ [e] else onWriteError_calls w)"
  using assms by (simp_all add: flushFrameLocked_def errOnce_Do_def latched_def)

section \<open>The frame writer: error latch and backlog, end to end\<close>


text \<open>
  \<^bold>\<open>C2, as amended.\<close> The first write error is latched once: the write that fails while
  \<^verbatim>\<open>errOnce\<close> has not run stores the error, marks the writer closed and starts the callback
  with that error, once. From a writer with a latched error, whatever happens next (client
  calls, cases of the loop, further failing writes), the error, the closed flag and the
  list of callback starts stay as they are, and every \<^verbatim>\<open>WriteFrame\<close>, \<^verbatim>\<open>WriteFrameWithCancel\<close>
  or \<^verbatim>\<open>WriteControl\<close> call returns the latched error and leaves the writer untouched: the
  frame is not enqueued and the counters do not move.
\<close>

theorem error_latch:
  "(\<not> errOnce w \<and> WriteFrame (conn w) f = (c, Some e) \<longrightarrow>
      latched (flushFrameLocked w f) e
      \<and> onWriteError_calls (flushFrameLocked w f)
           = (if onWriteErrorSet w then onWriteError_calls w @ [e] else onWriteError_calls w))
   \<and> (latched w e \<and> steps w evs = Some w' \<longrightarrow>
        latched w' e
        \<and> onWriteError_calls w' = onWriteError_calls w
        \<and> WriteFrameWithCancel_enter w' (Some fr) cancel pick = (w', Returned (Some e))
        \<and> FrameWriter_WriteFrame_enter w' (Some fr) pick = (w', Returned (Some e))
        \<and> WriteControl_enter w' (Some fr) pick = (w', Returned (Some e)))"
proof (intro conjI impI)
  assume a: "\<not> errOnce w \<and> WriteFrame (conn w) f = (c, Some e)"
  then show "latched (flushFrameLocked w f) e" by (simp add: first_error_latches)
  from a show "onWriteError_calls (flushFrameLocked w f)
           = (if onWriteErrorSet w then onWriteError_calls w @ [e] else onWriteError_calls w)"
    using first_error_latches(2) [of w f c e] by simp
next
  assume a: "latched w e \<and> steps w evs = Some w'"
  then have lw: "errOnce w" "closed w" "steps w evs = Some w'" by (simp_all add: latched_def)
  then have "latch w' = latch w" by (rule latch_steps)
  with a have l: "latched w' e" and calls: "onWriteError_calls w' = onWriteError_calls w"
    by (simp_all add: latched_def latch_def)
  from l have c: "closed w'" and ce: "closed_error w' = e"
    by (simp_all add: latched_def closed_error_def)
  show "latched w' e" by (rule l)
  show "onWriteError_calls w' = onWriteError_calls w" by (rule calls)
  show "WriteFrameWithCancel_enter w' (Some fr) cancel pick = (w', Returned (Some e))"
    using enter_closed [OF c] ce by simp
  show "FrameWriter_WriteFrame_enter w' (Some fr) pick = (w', Returned (Some e))"
    using enter_closed [OF c] ce by (simp add: FrameWriter_WriteFrame_enter_def)
  show "WriteControl_enter w' (Some fr) pick = (w', Returned (Some e))"
    using control_enter_closed [OF c] ce by simp
qed


theorem error_latch_witness:
  "\<not> errOnce (NewFrameWriter conn_fail_then_ok 5)
   \<and> WriteFrame (conn (NewFrameWriter conn_fail_then_ok 5)) frame_a
       = (\<lparr>outcomes = [None], attempted = [frame_a], emitted = []\<rparr>, Some (ConnError 1))
   \<and> latched after_error (ConnError 1)
   \<and> steps after_error [EvLoopTick, EvWriteFrame frame_b False True] = Some after_error
   \<and> WriteControl_enter after_error (Some frame_b) True = (after_error, Returned (Some (ConnError 1)))"
proof -
  let ?w = "NewFrameWriter conn_fail_then_ok 5"
  have ne: "\<not> errOnce ?w"
    by (simp add: NewFrameWriter_def NewFrameWriterWithConfig_def EnableAdaptiveFlush_def)
  have wr: "WriteFrame (conn ?w) frame_a
       = (\<lparr>outcomes = [None], attempted = [frame_a], emitted = []\<rparr>, Some (ConnError 1))"
    by (simp add: NewFrameWriter_def NewFrameWriterWithConfig_def EnableAdaptiveFlush_def
          WriteFrame_def conn_fail_then_ok_def)
  from error_latch [where w = ?w and f = frame_a and e = "ConnError 1"] ne wr
  have l: "latched after_error (ConnError 1)" by (simp add: after_error_def)
  then have cl: "closed after_error" by (simp add: latched_def)
  have b: "batch after_error = []"
    by (simp add: after_error_def NewFrameWriter_def NewFrameWriterWithConfig_def
          EnableAdaptiveFlush_def flushFrameLocked_def unmarkQueued_def Let_def errOnce_Do_def
          split: prod.splits option.splits)
  have le: "\<not> loop_exited after_error"
    by (simp add: after_error_def NewFrameWriter_def NewFrameWriterWithConfig_def
          EnableAdaptiveFlush_def flushFrameLocked_def unmarkQueued_def Let_def errOnce_Do_def
          split: prod.splits option.splits)
  have st: "steps after_error [EvLoopTick, EvWriteFrame frame_b False True] = Some after_error"
    using b le cl by (simp add: loop_tick_def enter_closed)
  from error_latch [where w = after_error and e = "ConnError 1"
                       and evs = "[EvLoopTick, EvWriteFrame frame_b False True]"
                       and w' = after_error and fr = frame_b and pick = True] l st
  have "WriteControl_enter after_error (Some frame_b) True = (after_error, Returned (Some (ConnError 1)))"
    by blast
  with ne wr l st show ?thesis by simp
qed

text \<open>
  \<^bold>\<open>C2.\<close> The claim adds that no frame reaches the byte writer after the first write
  error. \<^verbatim>\<open>flushFrameLocked\<close> calls \<^verbatim>\<open>WriteFrame(w.conn, frame)\<close> whether or not an error is
  latched, and the loop goes on taking frames from its queues. Two frames are enqueued on
  a writer made by \<^verbatim>\<open>NewFrameWriter\<close>; the write of the first fails: the error is latched,
  the writer is closed, nothing was emitted and the second frame is still counted. The
  loop then takes the second frame and writes it: the byte writer accepts it.
\<close>

theorem frames_emitted_after_error:
  "map_option observe (run (NewFrameWriter conn_fail_then_ok 5)
       [EvWriteFrame frame_a False True, EvWriteFrame frame_b False True, EvLoopData])
     = Some (Some (ConnError 1), True, [], 1, 7)
   \<and> map_option observe (run (NewFrameWriter conn_fail_then_ok 5)
       [EvWriteFrame frame_a False True, EvWriteFrame frame_b False True, EvLoopData, EvLoopData])
     = Some (Some (ConnError 1), True, [frame_b], 0, 0)"
  by code_simp




end
